theory Spec2Isabelle
  imports Complex_Main "HOL-Library.List_Lexorder" "HOL-Library.Char_ord"
    "HOL-Library.Product_Lexorder" "HOL-Library.Option_ord" "HOL-Library.Multiset"
begin

section \<open>Transaction summary: date windows, row filter and aggregation\<close>

text \<open>
  The development embeds the three functions of \<^verbatim>\<open>sales.py\<close> that carry logic:
  \<^verbatim>\<open>get_date_range\<close> (the period resolver), \<^verbatim>\<open>filter_data_by_date\<close> (the row
  filter) and \<^verbatim>\<open>load_and_process_data\<close> (the pipeline with the aggregation).

  What the functions call in the Python standard library is modelled beside them:
  \<^verbatim>\<open>datetime\<close> is a record of its seven fields; its arithmetic with
  \<^verbatim>\<open>timedelta(days=k)\<close> goes through proleptic Gregorian ordinals as in CPython
  (\<^verbatim>\<open>_ymd2ord\<close>, \<^verbatim>\<open>_ord2ymd\<close>), and raises \<^verbatim>\<open>OverflowError\<close> outside the years
  1 to 9999; \<^verbatim>\<open>replace\<close> is a record update followed by the constructor's range
  check (\<^verbatim>\<open>ValueError\<close>).

  Of pandas, the model fixes the structure and leaves the numerics open:
  \<^item> a frame is a list of named columns, each with a dtype and its cells, so that a
    column is read, replaced, added and dropped by its name as in the source;
  \<^item> a timestamp of a column without time zone is its integer value, nanoseconds
    since 1970-01-01; the bounds of the 64-bit representation are not modelled;
  \<^item> \<^verbatim>\<open>pd.to_datetime\<close>, the sum of a group, the sum of a column, \<^verbatim>\<open>round(2)\<close> and
    \<^verbatim>\<open>sort_values\<close> are parameters, the fields of a record \<open>L\<close>: the parser works on
    a whole column and decides its dtype, the arithmetic is that of the column's
    numbers (float64 or int64), and each of the last four may raise. What a theorem
    needs of them is a hypothesis of that theorem.
\<close>

subsection \<open>Errors\<close>

datatype error = ValueError | OverflowError | KeyError | TypeError | AttributeError

subsection \<open>The calendar of Python's datetime\<close>

record datetime =
  year :: int
  month :: int
  day :: int
  hour :: int
  minute :: int
  second :: int
  microsecond :: int

definition divmod :: "int \<Rightarrow> int \<Rightarrow> int \<times> int" where
  "divmod a b = (a div b, a mod b)"

definition MAXYEAR :: int where
  "MAXYEAR = 9999"

definition MAXORDINAL :: int where
  "MAXORDINAL = 3652059"

definition DAYS_IN_MONTH :: "int list" where
  "DAYS_IN_MONTH = [-1, 31, 28, 31, 30, 31, 30, 31, 31, 30, 31, 30, 31]"

definition DAYS_BEFORE_MONTH :: "int list" where
  "DAYS_BEFORE_MONTH = [-1, 0, 31, 59, 90, 120, 151, 181, 212, 243, 273, 304, 334]"

definition is_leap :: "int \<Rightarrow> bool" where
  "is_leap y = (y mod 4 = 0 \<and> (y mod 100 \<noteq> 0 \<or> y mod 400 = 0))"

definition days_before_year :: "int \<Rightarrow> int" where
  "days_before_year y = (let y1 = y - 1 in y1 * 365 + y1 div 4 - y1 div 100 + y1 div 400)"

definition days_in_month :: "int \<Rightarrow> int \<Rightarrow> int" where
  "days_in_month y m = (if m = 2 \<and> is_leap y then 29 else DAYS_IN_MONTH ! nat m)"

definition days_before_month :: "int \<Rightarrow> int \<Rightarrow> int" where
  "days_before_month y m = DAYS_BEFORE_MONTH ! nat m + (if m > 2 \<and> is_leap y then 1 else 0)"

definition ymd2ord :: "int \<Rightarrow> int \<Rightarrow> int \<Rightarrow> int" where
  "ymd2ord y m d = days_before_year y + days_before_month y m + d"

text \<open>The tail of \<^verbatim>\<open>_ord2ymd\<close>: month and day from the day \<open>n\<close> of the year, counted from 0.\<close>

definition month_day :: "int \<Rightarrow> bool \<Rightarrow> int \<Rightarrow> int \<times> int \<times> int" where
  "month_day y leapyear n =
     (let m = (n + 50) div 32;
          preceding = DAYS_BEFORE_MONTH ! nat m + (if m > 2 \<and> leapyear then 1 else 0)
      in if preceding > n
         then (let m = m - 1;
                   preceding = preceding - (DAYS_IN_MONTH ! nat m + (if m = 2 \<and> leapyear then 1 else 0))
               in (y, m, n - preceding + 1))
         else (y, m, n - preceding + 1))"

definition ord2ymd :: "int \<Rightarrow> int \<times> int \<times> int" where
  "ord2ymd n0 =
    (let n = n0 - 1 in
     case divmod n 146097 of (n400, n) \<Rightarrow>
     let y = n400 * 400 + 1 in
     case divmod n 36524 of (n100, n) \<Rightarrow>
     case divmod n 1461 of (n4, n) \<Rightarrow>
     case divmod n 365 of (n1, n) \<Rightarrow>
     let y = y + n100 * 100 + n4 * 4 + n1 in
     if n1 = 4 \<or> n100 = 4 then (y - 1, 12, 31)
     else month_day y (n1 = 3 \<and> (n4 \<noteq> 24 \<or> n100 = 3)) n)"

text \<open>A date of the proleptic Gregorian calendar, with no upper bound on the year.\<close>

definition valid_ymd :: "int \<Rightarrow> int \<Rightarrow> int \<Rightarrow> bool" where
  "valid_ymd y m d = (1 \<le> y \<and> 1 \<le> m \<and> m \<le> 12 \<and> 1 \<le> d \<and> d \<le> days_in_month y m)"

definition check_date_fields :: "int \<Rightarrow> int \<Rightarrow> int \<Rightarrow> bool" where
  "check_date_fields y m d =
     (1 \<le> y \<and> y \<le> MAXYEAR \<and> 1 \<le> m \<and> m \<le> 12 \<and> 1 \<le> d \<and> d \<le> days_in_month y m)"

definition check_time_fields :: "int \<Rightarrow> int \<Rightarrow> int \<Rightarrow> int \<Rightarrow> bool" where
  "check_time_fields h mi s us =
     (0 \<le> h \<and> h \<le> 23 \<and> 0 \<le> mi \<and> mi \<le> 59 \<and> 0 \<le> s \<and> s \<le> 59 \<and> 0 \<le> us \<and> us \<le> 999999)"

text \<open>The values a \<^verbatim>\<open>datetime\<close> object can hold.\<close>

definition valid_datetime :: "datetime \<Rightarrow> bool" where
  "valid_datetime d =
     (check_date_fields (year d) (month d) (day d)
      \<and> check_time_fields (hour d) (minute d) (second d) (microsecond d))"

text \<open>The constructor, which \<^verbatim>\<open>replace\<close> calls on the updated fields.\<close>

definition datetime_new :: "datetime \<Rightarrow> error + datetime" where
  "datetime_new d = (if valid_datetime d then Inr d else Inl ValueError)"

definition toordinal :: "datetime \<Rightarrow> int" where
  "toordinal d = ymd2ord (year d) (month d) (day d)"

text \<open>\<^verbatim>\<open>d - timedelta(days=k)\<close>: the time of day is kept.\<close>

definition minus_days :: "datetime \<Rightarrow> int \<Rightarrow> error + datetime" where
  "minus_days d k =
     (let n = toordinal d - k
      in if 0 < n \<and> n \<le> MAXORDINAL
         then (case ord2ymd n of (y, m, dd) \<Rightarrow> Inr (d\<lparr>year := y, month := m, day := dd\<rparr>))
         else Inl OverflowError)"

text \<open>Comparison of two datetimes: their field tuples, lexicographically.\<close>

definition dt_tuple :: "datetime \<Rightarrow> int list" where
  "dt_tuple d = [year d, month d, day d, hour d, minute d, second d, microsecond d]"

definition dt_le :: "datetime \<Rightarrow> datetime \<Rightarrow> bool" where
  "dt_le a b = (dt_tuple a \<le> dt_tuple b)"

subsection \<open>The period resolver\<close>

text \<open>
  \<open>now\<close> is what \<^verbatim>\<open>datetime.now()\<close> returns; it is read only when no reference
  date is passed. The result is the pair the function returns, \<open>(None, None)\<close> for
  the unbounded window.
\<close>

definition get_date_range ::
  "datetime \<Rightarrow> string \<Rightarrow> datetime option \<Rightarrow> error + (datetime option \<times> datetime option)" where
  "get_date_range now filter_option reference_date =
     (let reference_date = (case reference_date of None \<Rightarrow> now | Some r \<Rightarrow> r)
      in case datetime_new (reference_date\<lparr>hour := 0, minute := 0, second := 0, microsecond := 0\<rparr>) of
        Inl err \<Rightarrow> Inl err
      | Inr today \<Rightarrow>
          if filter_option = ''Today'' then Inr (Some today, Some today)
          else if filter_option = ''Yesterday'' then
            (case minus_days today 1 of Inl err \<Rightarrow> Inl err
             | Inr yesterday \<Rightarrow> Inr (Some yesterday, Some yesterday))
          else if filter_option = ''Last 7 Days'' then
            (case minus_days today 6 of Inl err \<Rightarrow> Inl err
             | Inr start_date \<Rightarrow> Inr (Some start_date, Some today))
          else if filter_option = ''Last 30 Days'' then
            (case minus_days today 29 of Inl err \<Rightarrow> Inl err
             | Inr start_date \<Rightarrow> Inr (Some start_date, Some today))
          else if filter_option = ''Last 90 Days'' then
            (case minus_days today 89 of Inl err \<Rightarrow> Inl err
             | Inr start_date \<Rightarrow> Inr (Some start_date, Some today))
          else if filter_option = ''Last 180 Days'' then
            (case minus_days today 179 of Inl err \<Rightarrow> Inl err
             | Inr start_date \<Rightarrow> Inr (Some start_date, Some today))
          else if filter_option = ''Last 365 Days'' then
            (case minus_days today 364 of Inl err \<Rightarrow> Inl err
             | Inr start_date \<Rightarrow> Inr (Some start_date, Some today))
          else if filter_option = ''This Month'' then
            (case datetime_new (today\<lparr>day := 1\<rparr>) of Inl err \<Rightarrow> Inl err
             | Inr start_date \<Rightarrow> Inr (Some start_date, Some today))
          else if filter_option = ''Previous Month'' then
            (case datetime_new (today\<lparr>day := 1\<rparr>) of Inl err \<Rightarrow> Inl err
             | Inr first_day_this_month \<Rightarrow>
                 (case minus_days first_day_this_month 1 of Inl err \<Rightarrow> Inl err
                  | Inr last_day_prev_month \<Rightarrow>
                      (case datetime_new (last_day_prev_month\<lparr>day := 1\<rparr>) of Inl err \<Rightarrow> Inl err
                       | Inr start_date \<Rightarrow> Inr (Some start_date, Some last_day_prev_month))))
          else if filter_option = ''This Year'' then
            (case datetime_new (today\<lparr>month := 1, day := 1\<rparr>) of Inl err \<Rightarrow> Inl err
             | Inr start_date \<Rightarrow> Inr (Some start_date, Some today))
          else if filter_option = ''Previous Year'' then
            (case datetime_new (today\<lparr>year := year today - 1, month := 1, day := 1\<rparr>) of
               Inl err \<Rightarrow> Inl err
             | Inr start_date \<Rightarrow>
                 (case datetime_new (today\<lparr>year := year today - 1, month := 12, day := 31\<rparr>) of
                    Inl err \<Rightarrow> Inl err
                  | Inr end_date \<Rightarrow> Inr (Some start_date, Some end_date)))
          else Inr (None, None))"

text \<open>
  For the statements: the reference instant at midnight (the function's \<^verbatim>\<open>today\<close>), and
  the year and month before a month.
\<close>

definition midnight :: "datetime \<Rightarrow> datetime" where
  "midnight d = d\<lparr>hour := 0, minute := 0, second := 0, microsecond := 0\<rparr>"

definition prev_month :: "int \<Rightarrow> int \<Rightarrow> int \<times> int" where
  "prev_month y m = (if m = 1 then (y - 1, 12) else (y, m - 1))"

subsection \<open>Frames and cells\<close>

text \<open>
  A cell is missing (NaN, None or NaT), a text, a number of the column's numeric type,
  or a timestamp. The dtype of a column says whether it is a datetime column without
  time zone, one with a time zone, or anything else.
\<close>

datatype 'a cell = NA | Text string | Num 'a | Stamp int

datatype dtype = Plain | Datetime64 | Datetime64tz

record 'a column =
  name :: string
  dtype :: dtype
  cells :: "'a cell list"

type_synonym 'a frame = "'a column list"

definition column_names :: "'a frame \<Rightarrow> string list" where
  "column_names df = map name df"

text \<open>\<^verbatim>\<open>df[c]\<close>: the column of that name, \<open>None\<close> where pandas raises \<^verbatim>\<open>KeyError\<close>.\<close>

definition get_col :: "'a frame \<Rightarrow> string \<Rightarrow> 'a column option" where
  "get_col df c = find (\<lambda>x. name x = c) df"

text \<open>\<^verbatim>\<open>df[c] = col\<close>: the column of that name is replaced, a new name is added last.\<close>

fun set_col :: "'a frame \<Rightarrow> 'a column \<Rightarrow> 'a frame" where
  "set_col [] col = [col]"
| "set_col (x # xs) col = (if name x = name col then col # xs else x # set_col xs col)"

definition drop_col :: "'a frame \<Rightarrow> string \<Rightarrow> 'a frame" where
  "drop_col df c = filter (\<lambda>x. name x \<noteq> c) df"

text \<open>\<^verbatim>\<open>df[mask]\<close>: the rows at which the mask is true, in every column.\<close>

definition select :: "bool list \<Rightarrow> 'b list \<Rightarrow> 'b list" where
  "select keep xs = map snd (filter fst (zip keep xs))"

definition select_rows :: "bool list \<Rightarrow> 'a frame \<Rightarrow> 'a frame" where
  "select_rows keep df = map (\<lambda>x. x\<lparr>cells := select keep (cells x)\<rparr>) df"

definition notna :: "'a cell \<Rightarrow> bool" where
  "notna c = (c \<noteq> NA)"

text \<open>\<^verbatim>\<open>df.dropna(subset=[c])\<close>, called only where the column is there.\<close>

definition dropna :: "'a frame \<Rightarrow> string \<Rightarrow> 'a frame" where
  "dropna df c =
     (case get_col df c of
        None \<Rightarrow> df
      | Some col \<Rightarrow> select_rows (map notna (cells col)) df)"

text \<open>\<^verbatim>\<open>df.empty\<close>: no column, or no row; the columns of a frame have one length.\<close>

definition frame_empty :: "'a frame \<Rightarrow> bool" where
  "frame_empty df = list_all (\<lambda>x. cells x = []) df"

subsection \<open>What is taken from pandas\<close>

record 'a summary_row =
  Category :: "'a cell"
  n_transactions :: nat
  Total_Amount_Paid :: "'a cell"

text \<open>
  The operations of pandas that the source calls and the model does not fix:
  \<^item> \<open>to_datetime\<close>: \<^verbatim>\<open>pd.to_datetime(column, errors='coerce')\<close>, from the dtype and the
    cells of a column to those of the converted column (a cell that does not parse
    becomes \<open>NA\<close>);
  \<^item> \<open>groupby_sum\<close>: the \<^verbatim>\<open>sum\<close> of the cells of one group that are not missing;
  \<^item> \<open>series_round\<close>: \<^verbatim>\<open>round(2)\<close> on one cell of the column of totals;
  \<^item> \<open>sort_values\<close>: \<^verbatim>\<open>sort_values('Total Amount Paid', ascending=False)\<close>;
  \<^item> \<open>series_sum\<close>: the \<^verbatim>\<open>sum\<close> of the column of totals.
\<close>

record 'a pandas =
  to_datetime :: "dtype \<times> 'a cell list \<Rightarrow> dtype \<times> 'a cell list"
  groupby_sum :: "'a cell list \<Rightarrow> error + 'a cell"
  series_round :: "'a cell \<Rightarrow> error + 'a cell"
  sort_values :: "'a summary_row list \<Rightarrow> error + 'a summary_row list"
  series_sum :: "'a cell list \<Rightarrow> error + 'a cell"

definition to_datetime_col :: "'a pandas \<Rightarrow> 'a column \<Rightarrow> 'a column" where
  "to_datetime_col L col =
     (case to_datetime L (dtype col, cells col) of (d, cs) \<Rightarrow> col\<lparr>dtype := d, cells := cs\<rparr>)"

subsection \<open>Timestamps\<close>

definition NS_PER_SECOND :: int where
  "NS_PER_SECOND = 1000000000"

definition NS_PER_DAY :: int where
  "NS_PER_DAY = 86400 * NS_PER_SECOND"

definition EPOCH_ORDINAL :: int where
  "EPOCH_ORDINAL = 719163"

text \<open>\<^verbatim>\<open>pd.Timestamp(d)\<close> for a datetime \<open>d\<close>.\<close>

definition Timestamp :: "datetime \<Rightarrow> int" where
  "Timestamp d =
     (toordinal d - EPOCH_ORDINAL) * NS_PER_DAY
     + ((hour d * 60 + minute d) * 60 + second d) * NS_PER_SECOND
     + microsecond d * 1000"

definition normalize :: "int \<Rightarrow> int" where
  "normalize t = (t div NS_PER_DAY) * NS_PER_DAY"

definition Timedelta_days :: "int \<Rightarrow> int" where
  "Timedelta_days k = k * NS_PER_DAY"

definition Timedelta_seconds :: "int \<Rightarrow> int" where
  "Timedelta_seconds k = k * NS_PER_SECOND"

subsection \<open>The row filter\<close>

text \<open>\<^verbatim>\<open>.dt.normalize()\<close> on one cell of a datetime column.\<close>

definition normalize_cell :: "'a cell \<Rightarrow> 'a cell" where
  "normalize_cell c = (case c of Stamp t \<Rightarrow> Stamp (normalize t) | _ \<Rightarrow> NA)"

text \<open>The mask on one cell; a comparison with NaT is false.\<close>

definition in_window :: "int \<Rightarrow> int \<Rightarrow> 'a cell \<Rightarrow> bool" where
  "in_window start_date_normalized end_date_normalized c =
     (case c of
        Stamp t \<Rightarrow> start_date_normalized \<le> t \<and> t \<le> end_date_normalized
      | _ \<Rightarrow> False)"

text \<open>
  The accessor \<^verbatim>\<open>.dt\<close> raises \<^verbatim>\<open>AttributeError\<close> on a column that is no datetime
  column, and the comparison of a column with a time zone with the timestamps of the
  window, which have none, raises \<^verbatim>\<open>TypeError\<close>. The column \<^verbatim>\<open>date_only\<close> is set in
  the frame and dropped from the result, whatever the frame held under that name.
\<close>

definition filter_data_by_date ::
  "'a pandas \<Rightarrow> 'a frame \<Rightarrow> datetime option \<Rightarrow> datetime option \<Rightarrow> string \<Rightarrow> error + 'a frame" where
  "filter_data_by_date L df start_date end_date date_column =
     (case (start_date, end_date) of
        (Some s, Some e) \<Rightarrow>
          (case get_col df date_column of
             None \<Rightarrow> Inl KeyError
           | Some col \<Rightarrow>
               let df_filtered = set_col df (to_datetime_col L col);
                   df_filtered = dropna df_filtered date_column
               in (case get_col df_filtered date_column of
                     None \<Rightarrow> Inl KeyError
                   | Some col \<Rightarrow>
                       if dtype col = Plain then Inl AttributeError
                       else
                         let date_only = col\<lparr>name := ''date_only'',
                                             cells := map normalize_cell (cells col)\<rparr>;
                             df_filtered = set_col df_filtered date_only;
                             start_date_normalized = normalize (Timestamp s);
                             end_date_normalized =
                               normalize (Timestamp e) + Timedelta_days 1 - Timedelta_seconds 1
                         in if dtype date_only = Datetime64tz then Inl TypeError
                            else
                              let keep = map (in_window start_date_normalized end_date_normalized)
                                           (cells date_only)
                              in Inr (drop_col (select_rows keep df_filtered) ''date_only'')))
      | _ \<Rightarrow> Inr df)"

subsection \<open>The aggregation\<close>

text \<open>
  \<^verbatim>\<open>groupby('Transaction Category')\<close>: the keys are the cells of the column that are not
  missing, each once, in ascending order (numbers before texts before timestamps; a
  column holds one kind). The cells of a group are those of the rows with its key.
\<close>

definition cell_key :: "'a cell \<Rightarrow> nat \<times> 'a option \<times> string \<times> int" where
  "cell_key c =
     (case c of
        NA \<Rightarrow> (3, None, [], 0)
      | Num x \<Rightarrow> (0, Some x, [], 0)
      | Text s \<Rightarrow> (1, None, s, 0)
      | Stamp t \<Rightarrow> (2, None, [], t))"

definition group_keys :: "'a::linorder cell list \<Rightarrow> 'a cell list" where
  "group_keys ks = sort_key cell_key (remdups (filter notna ks))"

definition group_cells :: "'a cell list \<Rightarrow> 'a cell list \<Rightarrow> 'a cell \<Rightarrow> 'a cell list" where
  "group_cells ks vs k = map snd (filter (\<lambda>p. fst p = k) (zip ks vs))"

text \<open>A list of calls of which the first that raises ends the whole.\<close>

fun traverse :: "('b \<Rightarrow> error + 'c) \<Rightarrow> 'b list \<Rightarrow> error + 'c list" where
  "traverse f [] = Inr []"
| "traverse f (x # xs) =
     (case f x of
        Inl err \<Rightarrow> Inl err
      | Inr y \<Rightarrow> (case traverse f xs of Inl err \<Rightarrow> Inl err | Inr ys \<Rightarrow> Inr (y # ys)))"

text \<open>One group: \<^verbatim>\<open>count\<close> and \<^verbatim>\<open>sum\<close> are taken over the amounts that are not missing.\<close>

definition agg_group ::
  "'a pandas \<Rightarrow> 'a cell list \<Rightarrow> 'a cell list \<Rightarrow> 'a cell \<Rightarrow> error + 'a summary_row" where
  "agg_group L ks vs k =
     (let present = filter notna (group_cells ks vs k)
      in case groupby_sum L present of
           Inl err \<Rightarrow> Inl err
         | Inr s \<Rightarrow> Inr \<lparr>Category = k, n_transactions = length present, Total_Amount_Paid = s\<rparr>)"

definition groupby_agg :: "'a::linorder pandas \<Rightarrow> 'a frame \<Rightarrow> error + 'a summary_row list" where
  "groupby_agg L df =
     (case get_col df ''Transaction Category'' of
        None \<Rightarrow> Inl KeyError
      | Some kc \<Rightarrow>
          (case get_col df ''Amount Paid'' of
             None \<Rightarrow> Inl KeyError
           | Some vc \<Rightarrow> traverse (agg_group L (cells kc) (cells vc)) (group_keys (cells kc))))"

definition round_total :: "'a pandas \<Rightarrow> 'a summary_row \<Rightarrow> error + 'a summary_row" where
  "round_total L g =
     (case series_round L (Total_Amount_Paid g) of
        Inl err \<Rightarrow> Inl err
      | Inr r \<Rightarrow> Inr (g\<lparr>Total_Amount_Paid := r\<rparr>))"

text \<open>Lines 192 to 198: the table, rounded and sorted.\<close>

definition aggregate :: "'a::linorder pandas \<Rightarrow> 'a frame \<Rightarrow> error + 'a summary_row list" where
  "aggregate L df =
     (case groupby_agg L df of
        Inl err \<Rightarrow> Inl err
      | Inr transaction_summary \<Rightarrow>
          (case traverse (round_total L) transaction_summary of
             Inl err \<Rightarrow> Inl err
           | Inr transaction_summary \<Rightarrow> sort_values L transaction_summary))"

subsection \<open>The pipeline\<close>

record 'a result =
  original_df :: "'a frame option"
  transaction_summary :: "'a summary_row list option"
  grand_total_amount :: "'a cell option"
  grand_total_count :: "nat option"
  start_date :: "datetime option"
  end_date :: "datetime option"

text \<open>Lines 189 to 203: the result from the rows that are left.\<close>

definition summarize ::
  "'a::{zero,linorder} pandas \<Rightarrow> 'a frame \<Rightarrow> datetime option \<Rightarrow> datetime option \<Rightarrow> 'a frame
     \<Rightarrow> error + 'a result" where
  "summarize L original sd ed df =
     (if frame_empty df then
        Inr \<lparr>original_df = Some original, transaction_summary = None,
             grand_total_amount = Some (Num 0), grand_total_count = Some 0,
             start_date = sd, end_date = ed\<rparr>
      else
        (case aggregate L df of
           Inl err \<Rightarrow> Inl err
         | Inr summary \<Rightarrow>
             (case series_sum L (map Total_Amount_Paid summary) of
                Inl err \<Rightarrow> Inl err
              | Inr grand_total \<Rightarrow>
                  Inr \<lparr>original_df = Some original, transaction_summary = Some summary,
                       grand_total_amount = Some grand_total,
                       grand_total_count = Some (sum_list (map n_transactions summary)),
                       start_date = sd, end_date = ed\<rparr>)))"

text \<open>
  \<open>loaded\<close> is the outcome of reading the file: \<open>None\<close> when the reader raised.
  An exception of \<^verbatim>\<open>get_date_range\<close>, of the filter or of the aggregation leaves the
  function.
\<close>

definition load_and_process_data ::
  "'a::{zero,linorder} pandas \<Rightarrow> datetime \<Rightarrow> 'a frame option \<Rightarrow> string \<Rightarrow> string
     \<Rightarrow> error + 'a result" where
  "load_and_process_data L now loaded filter_option date_column =
     (case loaded of
        None \<Rightarrow>
          Inr \<lparr>original_df = None, transaction_summary = None, grand_total_amount = None,
               grand_total_count = None, start_date = None, end_date = None\<rparr>
      | Some df0 \<Rightarrow>
          let df = (case get_col df0 date_column of
                      None \<Rightarrow> df0
                    | Some col \<Rightarrow> dropna (set_col df0 (to_datetime_col L col)) date_column)
          in case get_date_range now filter_option None of
               Inl err \<Rightarrow> Inl err
             | Inr (sd, ed) \<Rightarrow>
                 (case (if sd \<noteq> None \<and> date_column \<in> set (column_names df)
                        then filter_data_by_date L df sd ed date_column else Inr df) of
                    Inl err \<Rightarrow> Inl err
                  | Inr df \<Rightarrow> summarize L df0 sd ed df))"

text \<open>
  The decorator \<^verbatim>\<open>st.cache_data\<close>: a result that the function returned is stored under
  the file, the filter option and the name of the date column, and returned again for
  them without a new run, so with the window of the run that stored it. A run that
  raises stores nothing.
\<close>

definition load_and_process_data_cached ::
  "'a::{zero,linorder} pandas \<Rightarrow> datetime \<Rightarrow> ('f \<times> string \<times> string \<Rightarrow> 'a result option)
     \<Rightarrow> 'f \<Rightarrow> 'a frame option \<Rightarrow> string \<Rightarrow> string
     \<Rightarrow> (error + 'a result) \<times> ('f \<times> string \<times> string \<Rightarrow> 'a result option)" where
  "load_and_process_data_cached L now cache file loaded filter_option date_column =
     (case cache (file, filter_option, date_column) of
        Some r \<Rightarrow> (Inr r, cache)
      | None \<Rightarrow>
          (case load_and_process_data L now loaded filter_option date_column of
             Inl err \<Rightarrow> (Inl err, cache)
           | Inr r \<Rightarrow> (Inr r, cache((file, filter_option, date_column) := Some r))))"


subsection \<open>Notions of the statements\<close>



text \<open>What \<^verbatim>\<open>dropna\<close> and the mask of the filter together keep, on one cell.\<close>

definition window_mask :: "datetime \<Rightarrow> datetime \<Rightarrow> 'a cell \<Rightarrow> bool" where
  "window_mask s e c =
     (notna c \<and> in_window (normalize (Timestamp s))
                  (normalize (Timestamp e) + Timedelta_days 1 - Timedelta_seconds 1)
                  (normalize_cell c))"

text \<open>
  What theorems assume of pandas:
  \<^item> \<open>keeps_datetimes\<close>: the conversion of a datetime column without time zone is
    this column;
  \<^item> \<open>keeps_length\<close>: a converted column has as many cells as the column;
  \<^item> \<open>parses_empty\<close>: the date column of the frame, taken without cells, converts to
    a datetime column without time zone;
  \<^item> \<open>sort_permutes\<close>: a table that \<^verbatim>\<open>sort_values\<close> returns has the rows of its
    argument;
  \<^item> \<open>sorts_descending\<close>: moreover its totals that are numbers descend. Nothing is
    assumed on the order of rows of equal total.
\<close>

definition keeps_datetimes :: "'a pandas \<Rightarrow> bool" where
  "keeps_datetimes L = (\<forall>cs. to_datetime L (Datetime64, cs) = (Datetime64, cs))"

definition keeps_length :: "'a pandas \<Rightarrow> bool" where
  "keeps_length L = (\<forall>d cs. length (snd (to_datetime L (d, cs))) = length cs)"

definition parses_empty :: "'a pandas \<Rightarrow> 'a frame \<Rightarrow> string \<Rightarrow> bool" where
  "parses_empty L df date_column =
     (case get_col df date_column of
        None \<Rightarrow> True
      | Some col \<Rightarrow> to_datetime L (dtype col, []) = (Datetime64, []))"

definition sort_permutes :: "'a pandas \<Rightarrow> bool" where
  "sort_permutes L = (\<forall>t t'. sort_values L t = Inr t' \<longrightarrow> mset t' = mset t)"

definition descending :: "'a::linorder summary_row \<Rightarrow> 'a summary_row \<Rightarrow> bool" where
  "descending g h =
     (case (Total_Amount_Paid g, Total_Amount_Paid h) of
        (Num x, Num y) \<Rightarrow> y \<le> x
      | _ \<Rightarrow> True)"

definition sorts_descending :: "'a::linorder pandas \<Rightarrow> bool" where
  "sorts_descending L =
     (\<forall>t t'. sort_values L t = Inr t' \<longrightarrow> mset t' = mset t \<and> sorted_wrt descending t')"

text \<open>
  The frame without the rows of missing category; the categories of a frame, and the
  amounts of the rows of a category that are not missing; the sum of a group, rounded
  once.
\<close>

definition drop_missing_category :: "'a frame \<Rightarrow> 'a frame" where
  "drop_missing_category df = dropna df ''Transaction Category''"

definition categories :: "'a::linorder frame \<Rightarrow> 'a cell list" where
  "categories df =
     (case get_col df ''Transaction Category'' of
        Some kc \<Rightarrow> group_keys (cells kc)
      | None \<Rightarrow> [])"

definition present_amounts :: "'a frame \<Rightarrow> 'a cell \<Rightarrow> 'a cell list" where
  "present_amounts df k =
     (case (get_col df ''Transaction Category'', get_col df ''Amount Paid'') of
        (Some kc, Some vc) \<Rightarrow> filter notna (group_cells (cells kc) (cells vc) k)
      | _ \<Rightarrow> [])"

definition rounded_sum :: "'a pandas \<Rightarrow> 'a cell list \<Rightarrow> error + 'a cell" where
  "rounded_sum L cs =
     (case groupby_sum L cs of
        Inl err \<Rightarrow> Inl err
      | Inr s \<Rightarrow> series_round L s)"

text \<open>
  The rows that the pipeline summarizes, for a window: lines 181 to 187 on the frame
  that was read.
\<close>

definition kept_rows ::
  "'a pandas \<Rightarrow> 'a frame \<Rightarrow> string \<Rightarrow> datetime option \<Rightarrow> datetime option
     \<Rightarrow> error + 'a frame" where
  "kept_rows L df0 date_column sd ed =
     (let df = (case get_col df0 date_column of
                  None \<Rightarrow> df0
                | Some col \<Rightarrow> dropna (set_col df0 (to_datetime_col L col)) date_column)
      in if sd \<noteq> None \<and> date_column \<in> set (column_names df)
         then filter_data_by_date L df sd ed date_column else Inr df)"

text \<open>
  The totals of a result are reconciled with its table: the grand total is the sum of
  the column of totals as pandas takes it, the grand count the sum of the counts, and
  both are zero when there is no table. The result for no rows.
\<close>

definition reconciled :: "'a::zero pandas \<Rightarrow> 'a result \<Rightarrow> bool" where
  "reconciled L r =
     (case transaction_summary r of
        None \<Rightarrow> grand_total_amount r = Some (Num 0) \<and> grand_total_count r = Some 0
      | Some t \<Rightarrow>
          Some (series_sum L (map Total_Amount_Paid t)) = map_option Inr (grand_total_amount r)
          \<and> grand_total_count r = Some (sum_list (map n_transactions t)))"

definition empty_result :: "'a::zero frame \<Rightarrow> datetime option \<Rightarrow> datetime option \<Rightarrow> 'a result" where
  "empty_result df sd ed =
     \<lparr>original_df = Some df, transaction_summary = None,
      grand_total_amount = Some (Num 0), grand_total_count = Some 0,
      start_date = sd, end_date = ed\<rparr>"

subsection \<open>The library on the frames of the examples\<close>

text \<open>
  The examples run the functions with pandas as it behaves on their frames: amounts
  that are small integers, date columns of texts in the one format \<^verbatim>\<open>YYYY-MM-DD\<close>
  (besides missing cells and a text that is no date), tables of at most three rows.
  \<^item> The conversion leaves a datetime column, with or without time zone, as it is.
    A column of texts that all carry the offset \<^verbatim>\<open>+00:00\<close> becomes a datetime column
    with time zone. Any other column becomes a datetime column without time zone, of
    the instants of its dates, an integer read as nanoseconds, and \<open>NA\<close> for what is
    no date.
  \<^item> Sums of numbers are exact and missing cells add nothing; \<^verbatim>\<open>round(2)\<close> leaves an
    integer as it is; texts raise \<^verbatim>\<open>TypeError\<close>.
  \<^item> \<^verbatim>\<open>sort_values\<close> orders the numbers descending, rows of equal total in the order
    of its argument, as the sort of numpy does on the short tables used here, and
    puts what is no number last.
\<close>

definition example_parse :: "int cell \<Rightarrow> int cell" where
  "example_parse c =
     (case c of
        Text s \<Rightarrow>
          if s = ''2024-03-10'' then Stamp 1710028800000000000
          else if s = ''2024-03-15'' then Stamp 1710460800000000000
          else if s = ''2024-03-16'' then Stamp 1710547200000000000
          else NA
      | Num n \<Rightarrow> Stamp n
      | Stamp t \<Rightarrow> Stamp t
      | NA \<Rightarrow> NA)"

definition offset_text :: "int cell \<Rightarrow> bool" where
  "offset_text c = (c = Text ''2024-03-10 00:00:00+00:00'')"

definition example_to_datetime :: "dtype \<times> int cell list \<Rightarrow> dtype \<times> int cell list" where
  "example_to_datetime p =
     (case p of
        (Plain, cs) \<Rightarrow>
          if cs \<noteq> [] \<and> list_all offset_text cs
          then (Datetime64tz, map (\<lambda>c. Stamp 1710028800000000000) cs)
          else (Datetime64, map example_parse cs)
      | (d, cs) \<Rightarrow> (d, cs))"

definition is_number :: "int cell \<Rightarrow> bool" where
  "is_number c = (case c of Num x \<Rightarrow> True | _ \<Rightarrow> False)"

definition number_of :: "int cell \<Rightarrow> int" where
  "number_of c = (case c of Num x \<Rightarrow> x | _ \<Rightarrow> 0)"

definition example_sum :: "int cell list \<Rightarrow> error + int cell" where
  "example_sum cs =
     (if list_all is_number (filter notna cs)
      then Inr (Num (sum_list (map number_of cs)))
      else Inl TypeError)"

definition example_round :: "int cell \<Rightarrow> error + int cell" where
  "example_round c = (case c of Text s \<Rightarrow> Inl TypeError | _ \<Rightarrow> Inr c)"

definition example_sort :: "int summary_row list \<Rightarrow> error + int summary_row list" where
  "example_sort t =
     Inr (rev (sort_key (\<lambda>g. number_of (Total_Amount_Paid g))
                 (rev (filter (\<lambda>g. is_number (Total_Amount_Paid g)) t)))
          @ filter (\<lambda>g. \<not> is_number (Total_Amount_Paid g)) t)"

definition example_pandas :: "int pandas" where
  "example_pandas =
     \<lparr>to_datetime = example_to_datetime, groupby_sum = example_sum,
      series_round = example_round, sort_values = example_sort, series_sum = example_sum\<rparr>"

definition example_now :: datetime where
  "example_now = \<lparr>year = 2024, month = 3, day = 15, hour = 10, minute = 30, second = 0, microsecond = 0\<rparr>"

definition example_df :: "int frame" where
  "example_df =
     [\<lparr>name = ''Transaction Category'', dtype = Plain,
       cells = [Text ''A'', Text ''B'', Text ''A'', Text ''C'', Text ''B'']\<rparr>,
      \<lparr>name = ''Amount Paid'', dtype = Plain,
       cells = [Num 10, Num 5, Num 3, Num 7, Num 2]\<rparr>,
      \<lparr>name = ''Created On'', dtype = Plain,
       cells = [Text ''2024-03-10'', Text ''not-a-date'', NA, Text ''2024-03-15'',
                Text ''2024-03-16'']\<rparr>]"

definition example_uncategorised :: "int frame" where
  "example_uncategorised =
     [\<lparr>name = ''Transaction Category'', dtype = Plain,
       cells = [Text ''A'', Text ''A'', Text ''A'', Text ''B'', NA]\<rparr>,
      \<lparr>name = ''Amount Paid'', dtype = Plain,
       cells = [Num 1, Num 1, NA, Num 5, Num 9]\<rparr>,
      \<lparr>name = ''Created On'', dtype = Plain,
       cells = [Text ''2024-03-10'', Text ''2024-03-10'', Text ''2024-03-15'',
                Text ''2024-03-15'', Text ''2024-03-10'']\<rparr>]"

definition example_empty :: "int frame" where
  "example_empty =
     [\<lparr>name = ''Transaction Category'', dtype = Plain, cells = []\<rparr>,
      \<lparr>name = ''Amount Paid'', dtype = Plain, cells = []\<rparr>,
      \<lparr>name = ''Created On'', dtype = Plain, cells = []\<rparr>]"

section \<open>Properties of the calendar\<close>

subsection \<open>Quotients and remainders\<close>


lemma divmodI:
  assumes "a = b * q + r" "0 \<le> r" "r < b"
  shows "divmod a b = (q, r)"
  unfolding divmod_def using int_div_pos_eq [OF assms] int_mod_pos_eq [OF assms] by simp

lemma divmodD:
  assumes "divmod a b = (q, r)" "0 < b"
  shows "a = b * q + r \<and> 0 \<le> r \<and> r < b"
proof -
  have q: "q = a div b" and r: "r = a mod b" using assms(1) by (simp_all add: divmod_def)
  have "a = b * q + r" unfolding q r by simp
  moreover have "0 \<le> r" unfolding r using assms(2) by simp
  moreover have "r < b" unfolding r using assms(2) by simp
  ultimately show ?thesis by blast
qed

lemma divI: "a = b * q + r \<Longrightarrow> 0 \<le> r \<Longrightarrow> r < b \<Longrightarrow> (a::int) div b = q"
  by (rule int_div_pos_eq)

lemma modI: "a = b * q + r \<Longrightarrow> 0 \<le> r \<Longrightarrow> r < b \<Longrightarrow> (a::int) mod b = r"
  by (rule int_mod_pos_eq)

lemma dby_cycle:
  fixes a b c e :: int
  assumes "0 \<le> b" "b \<le> 3" "0 \<le> c" "c \<le> 24" "0 \<le> e" "e \<le> 3"
  shows "days_before_year (400 * a + 100 * b + 4 * c + e + 1)
         = 146097 * a + 36524 * b + 1461 * c + 365 * e"
proof -
  define Y where "Y = 400 * a + 100 * b + 4 * c + e"
  have d4: "Y div 4 = 100 * a + 25 * b + c"
    by (rule divI [where r = e]) (use assms in \<open>simp_all add: Y_def\<close>)
  have d100: "Y div 100 = 4 * a + b"
    by (rule divI [where r = "4 * c + e"]) (use assms in \<open>simp_all add: Y_def\<close>)
  have d400: "Y div 400 = a"
    by (rule divI [where r = "100 * b + 4 * c + e"]) (use assms in \<open>simp_all add: Y_def\<close>)
  have "days_before_year (Y + 1) = Y * 365 + Y div 4 - Y div 100 + Y div 400"
    by (simp add: days_before_year_def)
  also have "\<dots> = Y * 365 + (100 * a + 25 * b + c) - (4 * a + b) + a"
    unfolding d4 d100 d400 ..
  also have "\<dots> = 146097 * a + 36524 * b + 1461 * c + 365 * e"
    by (simp add: Y_def)
  finally show ?thesis by (simp add: Y_def)
qed


lemma is_leap_cycle:
  fixes a b c e :: int
  assumes "0 \<le> b" "b \<le> 3" "0 \<le> c" "c \<le> 24" "0 \<le> e" "e \<le> 3"
  shows "is_leap (400 * a + 100 * b + 4 * c + e + 1) = (e = 3 \<and> (c \<noteq> 24 \<or> b = 3))"
proof -
  define Y where "Y = 400 * a + 100 * b + 4 * c + e + 1"
  have m4: "Y mod 4 = (if e = 3 then 0 else e + 1)"
  proof (cases "e = 3")
    case True
    have "Y mod 4 = 0"
      by (rule modI [where q = "100 * a + 25 * b + c + 1"]) (use True in \<open>simp_all add: Y_def\<close>)
    with True show ?thesis by simp
  next
    case False
    have "Y mod 4 = e + 1"
      by (rule modI [where q = "100 * a + 25 * b + c"]) (use False assms in \<open>simp_all add: Y_def\<close>)
    with False show ?thesis by simp
  qed
  have m100: "Y mod 100 = (if c = 24 \<and> e = 3 then 0 else 4 * c + e + 1)"
  proof (cases "c = 24 \<and> e = 3")
    case True
    have "Y mod 100 = 0"
      by (rule modI [where q = "4 * a + b + 1"]) (use True in \<open>simp_all add: Y_def\<close>)
    with True show ?thesis by simp
  next
    case False
    have "Y mod 100 = 4 * c + e + 1"
      by (rule modI [where q = "4 * a + b"]) (use False assms in \<open>auto simp add: Y_def\<close>)
    with False show ?thesis by simp
  qed
  have m400: "Y mod 400 = (if b = 3 \<and> c = 24 \<and> e = 3 then 0 else 100 * b + 4 * c + e + 1)"
  proof (cases "b = 3 \<and> c = 24 \<and> e = 3")
    case True
    have "Y mod 400 = 0"
      by (rule modI [where q = "a + 1"]) (use True in \<open>simp_all add: Y_def\<close>)
    with True show ?thesis by simp
  next
    case False
    have "Y mod 400 = 100 * b + 4 * c + e + 1"
      by (rule modI [where q = "a"]) (use False assms in \<open>auto simp add: Y_def\<close>)
    with False show ?thesis by simp
  qed
  have "is_leap Y = (e = 3 \<and> (c \<noteq> 24 \<or> b = 3))"
    unfolding is_leap_def m4 m100 m400 using assms by auto
  then show ?thesis by (simp add: Y_def)
qed

lemma month_day_ok:
  assumes k: "0 \<le> k" "k \<le> 364" and lp: "lp = is_leap y"
  shows "\<exists>m d. month_day y lp k = (y, m, d) \<and> 1 \<le> m \<and> m \<le> 12 \<and> 1 \<le> d
           \<and> d \<le> days_in_month y m \<and> days_before_month y m + d = k + 1"
proof -
  define m0 where "m0 = (k + 50) div 32"
  define r where "r = (k + 50) mod 32"
  have "k + 50 = 32 * m0 + r" unfolding m0_def r_def by simp
  moreover have "0 \<le> r" "r < 32" unfolding r_def by simp_all
  ultimately have "1 \<le> m0" "m0 \<le> 12" "32 * m0 \<le> k + 50" "k + 50 < 32 * m0 + 32"
    using k by auto
  then have kb: "32 * m0 - 50 \<le> k" "k \<le> 32 * m0 - 19" by auto
  have m0: "(k + 50) div 32 = m0" by (simp add: m0_def)
  from \<open>1 \<le> m0\<close> \<open>m0 \<le> 12\<close>
  have "m0 = 1 \<or> m0 = 2 \<or> m0 = 3 \<or> m0 = 4 \<or> m0 = 5 \<or> m0 = 6
    \<or> m0 = 7 \<or> m0 = 8 \<or> m0 = 9 \<or> m0 = 10 \<or> m0 = 11 \<or> m0 = 12"
    by arith
  then show ?thesis
    using kb k
    by (elim disjE)
      (simp_all add: month_day_def m0 lp Let_def DAYS_BEFORE_MONTH_def DAYS_IN_MONTH_def
         days_in_month_def days_before_month_def)
qed



lemma ord2ymd_ok:
  assumes n: "1 \<le> n"
  shows "\<exists>y m d. ord2ymd n = (y, m, d) \<and> valid_ymd y m d \<and> ymd2ord y m d = n"
proof -
  obtain a r1 where d1: "divmod (n - 1) 146097 = (a, r1)" by (cases "divmod (n - 1) 146097")
  obtain b r2 where d2: "divmod r1 36524 = (b, r2)" by (cases "divmod r1 36524")
  obtain c r3 where d3: "divmod r2 1461 = (c, r3)" by (cases "divmod r2 1461")
  obtain e k where d4: "divmod r3 365 = (e, k)" by (cases "divmod r3 365")
  have f1: "n - 1 = 146097 * a + r1" "0 \<le> r1" "r1 < 146097" using divmodD [OF d1] by simp_all
  have f2: "r1 = 36524 * b + r2" "0 \<le> r2" "r2 < 36524" using divmodD [OF d2] by simp_all
  have f3: "r2 = 1461 * c + r3" "0 \<le> r3" "r3 < 1461" using divmodD [OF d3] by simp_all
  have f4: "r3 = 365 * e + k" "0 \<le> k" "k < 365" using divmodD [OF d4] by simp_all
  have a0: "0 \<le> a" using n f1 by arith
  have b0: "0 \<le> b" "b \<le> 4" using f1 f2 by arith+
  have c0: "0 \<le> c" "c \<le> 24" using f2 f3 by arith+
  have e0: "0 \<le> e" "e \<le> 4" using f3 f4 by arith+
  have unf: "ord2ymd n = (if e = 4 \<or> b = 4 then (400 * a + 100 * b + 4 * c + e, 12, 31)
       else month_day (400 * a + 100 * b + 4 * c + e + 1) (e = 3 \<and> (c \<noteq> 24 \<or> b = 3)) k)"
    by (simp add: ord2ymd_def Let_def d1 d2 d3 d4 algebra_simps)
  consider (cent) "b = 4" | (quad) "b \<le> 3" "e = 4" | (gen) "b \<le> 3" "e \<le> 3"
    using b0 e0 by arith
  then show ?thesis
  proof cases
    case cent
    have z: "r2 = 0" using f1 f2 cent by arith
    have z2: "c = 0" "r3 = 0" using z f3 c0 by arith+
    have z3: "e = 0" "k = 0" using z2 f4 e0 by arith+
    have dby: "days_before_year (400 * a + 400) = 146097 * a + 145731"
      using dby_cycle [of 3 24 3 a] by (simp add: algebra_simps)
    have lp: "is_leap (400 * a + 400)"
      using is_leap_cycle [of 3 24 3 a] by (simp add: algebra_simps)
    have "ord2ymd n = (400 * a + 400, 12, 31)" unfolding unf using cent z2 z3 by simp
    moreover have "valid_ymd (400 * a + 400) 12 31"
      using a0 by (simp add: valid_ymd_def days_in_month_def DAYS_IN_MONTH_def)
    moreover have "ymd2ord (400 * a + 400) 12 31 = n"
      using f1 f2 cent z
      by (simp add: ymd2ord_def dby lp days_before_month_def DAYS_BEFORE_MONTH_def)
    ultimately show ?thesis by blast
  next
    case quad
    have k0: "k = 0" "r3 = 1460" using f3 f4 quad by arith+
    have c23: "c \<le> 23" using f2 f3 k0 by arith
    let ?Y = "400 * a + 100 * b + 4 * c + 4"
    have dby: "days_before_year ?Y = 146097 * a + 36524 * b + 1461 * c + 1095"
      using dby_cycle [of b c 3 a] b0 quad c0 by (simp add: algebra_simps)
    have lp: "is_leap ?Y"
      using is_leap_cycle [of b c 3 a] b0 quad c0 c23 by (simp add: algebra_simps)
    have "ord2ymd n = (?Y, 12, 31)" unfolding unf using quad by simp
    moreover have "valid_ymd ?Y 12 31"
      using a0 b0 c0 by (simp add: valid_ymd_def days_in_month_def DAYS_IN_MONTH_def)
    moreover have "ymd2ord ?Y 12 31 = n"
      using f1 f2 f3 k0
      by (simp add: ymd2ord_def dby lp days_before_month_def DAYS_BEFORE_MONTH_def)
    ultimately show ?thesis by blast
  next
    case gen
    let ?Y = "400 * a + 100 * b + 4 * c + e + 1"
    have dby: "days_before_year ?Y = 146097 * a + 36524 * b + 1461 * c + 365 * e"
      using dby_cycle [of b c e a] b0 gen c0 e0 by simp
    have lp: "(e = 3 \<and> (c \<noteq> 24 \<or> b = 3)) = is_leap ?Y"
      using is_leap_cycle [of b c e a] b0 gen c0 e0 by simp
    have "k \<le> 364" using f4 by arith
    from month_day_ok [OF f4(2) this lp]
    obtain m d where md: "month_day ?Y (e = 3 \<and> (c \<noteq> 24 \<or> b = 3)) k = (?Y, m, d)"
        "1 \<le> m" "m \<le> 12" "1 \<le> d" "d \<le> days_in_month ?Y m"
        "days_before_month ?Y m + d = k + 1"
      by blast
    have "ord2ymd n = (?Y, m, d)" unfolding unf using gen md(1) by simp
    moreover have "valid_ymd ?Y m d"
      using a0 b0 c0 e0 md by (simp add: valid_ymd_def)
    moreover have "ymd2ord ?Y m d = n"
      using f1 f2 f3 f4 md(6) by (simp add: ymd2ord_def dby)
    ultimately show ?thesis by blast
  qed
qed


lemma div_step:
  fixes y d :: int
  assumes "0 < d"
  shows "y div d = (y - 1) div d + (if y mod d = 0 then 1 else 0)"
proof (cases "y mod d = 0")
  case True
  have "y - 1 = d * (y div d - 1) + (d - 1)"
    using True mult_div_mod_eq [of d y] by (simp add: algebra_simps)
  then have "(y - 1) div d = y div d - 1"
    by (rule int_div_pos_eq) (use assms in simp_all)
  with True show ?thesis by simp
next
  case False
  have r: "0 \<le> y mod d" "y mod d < d" using assms by simp_all
  have "y - 1 = d * (y div d) + (y mod d - 1)"
    using mult_div_mod_eq [of d y] by (simp add: algebra_simps)
  then have "(y - 1) div d = y div d"
    using assms r False by (intro int_div_pos_eq [where r = "y mod d - 1"]) simp_all
  with False show ?thesis by simp
qed

lemma mod_0_trans:
  fixes y p q :: int
  assumes "y mod p = 0" "q dvd p"
  shows "y mod q = 0"
proof -
  have "p dvd y" using assms(1) by (simp add: dvd_eq_mod_eq_0)
  with assms(2) have "q dvd y" by (rule dvd_trans)
  then show ?thesis by (simp add: dvd_eq_mod_eq_0)
qed

lemma leap_indicator:
  assumes "P400 \<Longrightarrow> P100" "P100 \<Longrightarrow> P4"
  shows "(if P4 then 1 else 0) - (if P100 then 1 else 0) + (if P400 then 1 else 0)
         = (if P4 \<and> (\<not> P100 \<or> P400) then 1 else (0::int))"
  using assms by (cases P4; cases P100; cases P400; simp)

lemma dby_arith:
  fixes Y :: int
  assumes "p = p' + x" "q = q' + u" "r = r' + z"
  shows "Y * 365 + p - q + r = ((Y - 1) * 365 + p' - q' + r') + 365 + (x - u + z)"
  using assms by (simp add: algebra_simps)

lemma dby_step:
  "days_before_year (y + 1) = days_before_year y + 365 + (if is_leap y then 1 else 0)"
proof -
  have a: "y div 4 = (y - 1) div 4 + (if y mod 4 = 0 then 1 else 0)" by (rule div_step) simp
  have b: "y div 100 = (y - 1) div 100 + (if y mod 100 = 0 then 1 else 0)" by (rule div_step) simp
  have c: "y div 400 = (y - 1) div 400 + (if y mod 400 = 0 then 1 else 0)" by (rule div_step) simp
  have e: "days_before_year (y + 1) = y * 365 + y div 4 - y div 100 + y div 400"
    by (simp add: days_before_year_def)
  have f: "days_before_year y = (y - 1) * 365 + (y - 1) div 4 - (y - 1) div 100 + (y - 1) div 400"
    by (simp add: days_before_year_def Let_def)
  have i1: "y mod 400 = 0 \<Longrightarrow> y mod 100 = 0" by (rule mod_0_trans [where p = 400]) simp_all
  have i2: "y mod 100 = 0 \<Longrightarrow> y mod 4 = 0" by (rule mod_0_trans [where p = 100]) simp_all
  have g: "(if y mod 4 = 0 then 1 else 0) - (if y mod 100 = 0 then 1 else 0)
      + (if y mod 400 = 0 then 1 else 0) = (if is_leap y then 1 else (0::int))"
    unfolding is_leap_def by (rule leap_indicator [OF i1 i2])
  show ?thesis
    unfolding e f g [symmetric] by (rule dby_arith [OF a b c])
qed

lemma leap_01: "0 \<le> (if is_leap y then 1 else (0::int))"
  by simp

lemma dby_mono_strict:
  assumes "y < y'"
  shows "days_before_year y + 365 + (if is_leap y then 1 else 0) \<le> days_before_year y'"
proof -
  have "y + 1 \<le> y'" using assms by simp
  then show ?thesis
  proof (induction rule: int_ge_induct)
    case base
    show ?case by (simp add: dby_step)
  next
    case (step i)
    have "days_before_year i \<le> days_before_year (i + 1)"
      unfolding dby_step by simp
    with step show ?case by simp
  qed
qed

lemma dby_mono: "y \<le> y' \<Longrightarrow> days_before_year y \<le> days_before_year y'"
  using dby_mono_strict [of y y'] by (cases "y = y'") (auto split: if_splits)

lemma dby_1: "days_before_year 1 = 0"
  by (simp add: days_before_year_def)

lemma dby_nonneg: "1 \<le> y \<Longrightarrow> 0 \<le> days_before_year y"
  using dby_mono [of 1 y] by (simp add: dby_1)

lemma month_cases:
  fixes m :: int
  assumes "1 \<le> m" "m \<le> 12"
  shows "m = 1 \<or> m = 2 \<or> m = 3 \<or> m = 4 \<or> m = 5 \<or> m = 6
    \<or> m = 7 \<or> m = 8 \<or> m = 9 \<or> m = 10 \<or> m = 11 \<or> m = 12"
  using assms by arith

lemma dbm_step:
  assumes "1 \<le> m" "m \<le> 11"
  shows "days_before_month y (m + 1) = days_before_month y m + days_in_month y m"
proof -
  have "m = 1 \<or> m = 2 \<or> m = 3 \<or> m = 4 \<or> m = 5 \<or> m = 6
    \<or> m = 7 \<or> m = 8 \<or> m = 9 \<or> m = 10 \<or> m = 11 \<or> m = 12"
    by (rule month_cases) (use assms in simp_all)
  then show ?thesis
    using assms
    by (elim disjE)
      (simp_all add: days_before_month_def days_in_month_def DAYS_BEFORE_MONTH_def DAYS_IN_MONTH_def)
qed

lemma dim_pos:
  assumes "1 \<le> m" "m \<le> 12"
  shows "28 \<le> days_in_month y m" "days_in_month y m \<le> 31"
  using month_cases [OF assms]
  by (elim disjE; simp add: days_in_month_def DAYS_IN_MONTH_def)+

lemma dbm_12: "days_before_month y 12 + 31 = 365 + (if is_leap y then 1 else 0)"
  by (simp add: days_before_month_def DAYS_BEFORE_MONTH_def)

lemma dbm_1: "days_before_month y 1 = 0"
  by (simp add: days_before_month_def DAYS_BEFORE_MONTH_def)

lemma dbm_mono_strict:
  assumes "1 \<le> m" "m < m'" "m' \<le> 12"
  shows "days_before_month y m + days_in_month y m \<le> days_before_month y m'"
proof -
  have "m + 1 \<le> m'" using assms by simp
  then have "m' \<le> 12 \<longrightarrow> days_before_month y m + days_in_month y m \<le> days_before_month y m'"
  proof (induction rule: int_ge_induct)
    case base
    show ?case using assms(1) by (simp add: dbm_step)
  next
    case (step i)
    show ?case
    proof
      assume i: "i + 1 \<le> 12"
      have "1 \<le> i" "i \<le> 11" "i \<le> 12" using step.hyps assms(1) i by simp_all
      then have "days_before_month y (i + 1) = days_before_month y i + days_in_month y i"
        "28 \<le> days_in_month y i"
        using dbm_step [of i y] dim_pos(1) [of i y] by simp_all
      with step.IH \<open>i \<le> 12\<close> show "days_before_month y m + days_in_month y m \<le> days_before_month y (i + 1)"
        by simp
    qed
  qed
  with assms show ?thesis by simp
qed

lemma dbm_nonneg: "1 \<le> m \<Longrightarrow> m \<le> 12 \<Longrightarrow> 0 \<le> days_before_month y m"
  using dbm_mono_strict [of 1 m y] dim_pos(1) [of 1 y] by (cases "m = 1") (simp_all add: dbm_1)

lemma yday_le:
  assumes "valid_ymd y m d"
  shows "days_before_month y m + d \<le> 365 + (if is_leap y then 1 else 0)"
proof (cases "m = 12")
  case True
  with assms dbm_12 [of y] show ?thesis
    by (simp add: valid_ymd_def days_in_month_def DAYS_IN_MONTH_def split: if_splits)
next
  case False
  with assms have "1 \<le> m" "m < 12" "d \<le> days_in_month y m" by (simp_all add: valid_ymd_def)
  with dbm_mono_strict [of m 12 y] dbm_12 [of y] show ?thesis by (simp split: if_splits)
qed

lemma ymd2ord_pos:
  assumes "valid_ymd y m d"
  shows "1 \<le> ymd2ord y m d"
  using assms dby_nonneg [of y] dbm_nonneg [of m y] by (simp add: valid_ymd_def ymd2ord_def)

lemma ymd2ord_strict:
  assumes v: "valid_ymd y m d" "valid_ymd y' m' d'"
    and lt: "y < y' \<or> y = y' \<and> (m < m' \<or> m = m' \<and> d < d')"
  shows "ymd2ord y m d < ymd2ord y' m' d'"
proof -
  consider (Y) "y < y'" | (M) "y = y'" "m < m'" | (D) "y = y'" "m = m'" "d < d'"
    using lt by blast
  then show ?thesis
  proof cases
    case Y
    have "1 \<le> days_before_month y' m' + d'"
      using v(2) dbm_nonneg [of m' y'] by (simp add: valid_ymd_def)
    with dby_mono_strict [OF Y] yday_le [OF v(1)] show ?thesis
      by (simp add: ymd2ord_def split: if_splits)
  next
    case M
    have "days_before_month y m + days_in_month y m \<le> days_before_month y m'"
      using v M by (intro dbm_mono_strict) (simp_all add: valid_ymd_def)
    with v M show ?thesis by (simp add: ymd2ord_def valid_ymd_def)
  next
    case D
    then show ?thesis by (simp add: ymd2ord_def)
  qed
qed

lemma ymd2ord_inj:
  assumes v: "valid_ymd y m d" "valid_ymd y' m' d'"
    and eq: "ymd2ord y m d = ymd2ord y' m' d'"
  shows "y = y' \<and> m = m' \<and> d = d'"
proof (rule ccontr)
  assume "\<not> ?thesis"
  then have "(y < y' \<or> y = y' \<and> (m < m' \<or> m = m' \<and> d < d'))
      \<or> (y' < y \<or> y' = y \<and> (m' < m \<or> m' = m \<and> d' < d))"
    by auto
  then show False
    using ymd2ord_strict [OF v] ymd2ord_strict [OF v(2) v(1)] eq by auto
qed

lemma ord2ymd_ymd2ord:
  assumes "valid_ymd y m d"
  shows "ord2ymd (ymd2ord y m d) = (y, m, d)"
proof -
  from ord2ymd_ok [OF ymd2ord_pos [OF assms]]
  obtain y' m' d' where *: "ord2ymd (ymd2ord y m d) = (y', m', d')" "valid_ymd y' m' d'"
    "ymd2ord y' m' d' = ymd2ord y m d" by blast
  from ymd2ord_inj [OF *(2) assms *(3)] * show ?thesis by simp
qed

subsection \<open>Ordinals of datetimes and subtraction of days\<close>


lemma dby_10000: "days_before_year 10000 = 3652059"
  by (simp add: days_before_year_def)

lemma valid_ymd_of_valid: "valid_datetime d \<Longrightarrow> valid_ymd (year d) (month d) (day d)"
  by (simp add: valid_datetime_def check_date_fields_def valid_ymd_def)

lemma toordinal_bounds:
  assumes "valid_datetime d"
  shows "1 \<le> toordinal d" "toordinal d \<le> MAXORDINAL"
proof -
  have v: "valid_ymd (year d) (month d) (day d)" using assms by (rule valid_ymd_of_valid)
  show "1 \<le> toordinal d" unfolding toordinal_def by (rule ymd2ord_pos [OF v])
  have "year d < 10000" using assms by (simp add: valid_datetime_def check_date_fields_def MAXYEAR_def)
  from dby_mono_strict [OF this] yday_le [OF v]
  show "toordinal d \<le> MAXORDINAL"
    by (simp add: toordinal_def ymd2ord_def dby_10000 MAXORDINAL_def split: if_splits)
qed

lemma ord2ymd_year_le:
  assumes "ord2ymd n = (y, m, d)" "1 \<le> n" "n \<le> MAXORDINAL"
  shows "valid_ymd y m d \<and> ymd2ord y m d = n \<and> y \<le> MAXYEAR"
proof -
  from ord2ymd_ok [OF assms(2)] assms(1)
  have v: "valid_ymd y m d" and o: "ymd2ord y m d = n" by auto
  have "y \<le> 9999"
  proof (rule ccontr)
    assume "\<not> y \<le> 9999"
    then have "10000 \<le> y" by simp
    from dby_mono [OF this] have "3652059 \<le> days_before_year y" by (simp add: dby_10000)
    moreover have "1 \<le> days_before_month y m + d"
      using v dbm_nonneg [of m y] by (simp add: valid_ymd_def)
    ultimately show False using o assms(3) by (simp add: ymd2ord_def MAXORDINAL_def)
  qed
  with v o show ?thesis by (simp add: MAXYEAR_def)
qed

lemma minus_days_Inr:
  assumes "minus_days d k = Inr s"
  shows "valid_ymd (year s) (month s) (day s) \<and> year s \<le> MAXYEAR
       \<and> toordinal s = toordinal d - k
       \<and> hour s = hour d \<and> minute s = minute d \<and> second s = second d
       \<and> microsecond s = microsecond d"
proof -
  obtain y m dd where o: "ord2ymd (toordinal d - k) = (y, m, dd)"
    by (cases "ord2ymd (toordinal d - k)")
  from assms have r: "0 < toordinal d - k" "toordinal d - k \<le> MAXORDINAL"
    and s: "s = d\<lparr>year := y, month := m, day := dd\<rparr>"
    by (auto simp: minus_days_def Let_def o split: if_splits)
  from ord2ymd_year_le [OF o _ r(2)] r(1)
  have "valid_ymd y m dd \<and> ymd2ord y m dd = toordinal d - k \<and> y \<le> MAXYEAR" by simp
  then show ?thesis by (simp add: s toordinal_def)
qed

lemma minus_days_valid:
  assumes "valid_datetime d" "minus_days d k = Inr s"
  shows "valid_datetime s"
  using minus_days_Inr [OF assms(2)] assms(1)
  by (simp add: valid_datetime_def check_date_fields_def valid_ymd_def)

lemma minus_days_total:
  assumes "valid_datetime d" "0 \<le> k" "k < toordinal d"
  shows "\<exists>s. minus_days d k = Inr s"
proof -
  have "0 < toordinal d - k" "toordinal d - k \<le> MAXORDINAL"
    using assms toordinal_bounds(2) [OF assms(1)] by simp_all
  then show ?thesis
    by (cases "ord2ymd (toordinal d - k)") (simp add: minus_days_def Let_def)
qed

lemma ymd_le_of_ord_le:
  assumes v: "valid_ymd y m d" "valid_ymd y' m' d'"
    and le: "ymd2ord y m d \<le> ymd2ord y' m' d'"
  shows "y < y' \<or> y = y' \<and> (m < m' \<or> m = m' \<and> d \<le> d')"
proof (rule ccontr)
  assume "\<not> ?thesis"
  then have "y' < y \<or> y' = y \<and> (m' < m \<or> m' = m \<and> d' < d)" by auto
  from ymd2ord_strict [OF v(2) v(1) this] le show False by simp
qed

lemma dt_le_refl: "dt_le a a"
  by (simp add: dt_le_def)

lemma dt_le_same_time:
  assumes "hour a = hour b" "minute a = minute b" "second a = second b"
    "microsecond a = microsecond b"
  shows "dt_le a b \<longleftrightarrow>
    (year a < year b \<or> year a = year b \<and> (month a < month b \<or> month a = month b \<and> day a \<le> day b))"
  using assms by (auto simp: dt_le_def dt_tuple_def)

lemma dt_le_minus_days:
  assumes "valid_datetime d" "0 \<le> k" "minus_days d k = Inr s"
  shows "dt_le s d"
proof -
  note f = minus_days_Inr [OF assms(3)]
  have "ymd2ord (year s) (month s) (day s) \<le> ymd2ord (year d) (month d) (day d)"
    using f assms(2) by (simp add: toordinal_def)
  from ymd_le_of_ord_le [OF _ valid_ymd_of_valid [OF assms(1)] this] f
  show ?thesis by (simp add: dt_le_same_time)
qed


lemma valid_midnight:
  "valid_datetime r \<Longrightarrow> valid_datetime (r\<lparr>hour := 0, minute := 0, second := 0, microsecond := 0\<rparr>)"
  by (simp add: valid_datetime_def check_time_fields_def)

lemma valid_day1: "valid_datetime d \<Longrightarrow> valid_datetime (d\<lparr>day := 1\<rparr>)"
  using dim_pos(1) [of "month d" "year d"]
  by (simp add: valid_datetime_def check_date_fields_def)

lemma dim_jan: "days_in_month y 1 = 31"
  by (simp add: days_in_month_def DAYS_IN_MONTH_def)

lemma dim_dec: "days_in_month y 12 = 31"
  by (simp add: days_in_month_def DAYS_IN_MONTH_def)

lemma valid_jan1: "valid_datetime d \<Longrightarrow> valid_datetime (d\<lparr>month := 1, day := 1\<rparr>)"
  by (simp add: valid_datetime_def check_date_fields_def dim_jan)

lemma valid_prev_year:
  "valid_datetime d \<Longrightarrow> 2 \<le> year d \<Longrightarrow>
     valid_datetime (d\<lparr>year := year d - 1, month := 1, day := 1\<rparr>)
     \<and> valid_datetime (d\<lparr>year := year d - 1, month := 12, day := 31\<rparr>)"
  by (simp add: valid_datetime_def check_date_fields_def dim_jan dim_dec MAXYEAR_def)

lemma dt_le_day1: "valid_datetime d \<Longrightarrow> dt_le (d\<lparr>day := 1\<rparr>) d"
  by (simp add: dt_le_same_time valid_datetime_def check_date_fields_def)

lemma dt_le_jan1: "valid_datetime d \<Longrightarrow> dt_le (d\<lparr>month := 1, day := 1\<rparr>) d"
  by (auto simp add: dt_le_same_time valid_datetime_def check_date_fields_def)

lemma dt_le_prev_year:
  "dt_le (d\<lparr>year := y, month := 1, day := 1\<rparr>) (d\<lparr>year := y, month := 12, day := 31\<rparr>)"
  by (simp add: dt_le_same_time)

lemma toordinal_year2:
  assumes "valid_datetime d" "2 \<le> year d"
  shows "366 \<le> toordinal d"
proof -
  have "days_before_year 2 = 365" by (simp add: days_before_year_def)
  with dby_mono [OF assms(2)] have "365 \<le> days_before_year (year d)" by simp
  moreover have "1 \<le> days_before_month (year d) (month d) + day d"
    using assms(1) dbm_nonneg [of "month d" "year d"]
    by (simp add: valid_datetime_def check_date_fields_def)
  ultimately show ?thesis by (simp add: toordinal_def ymd2ord_def)
qed

lemma dt_le_prev_month:
  assumes "valid_datetime t" "minus_days (t\<lparr>day := 1\<rparr>) 1 = Inr l"
  shows "dt_le (l\<lparr>day := 1\<rparr>) l"
  using dt_le_day1 [OF minus_days_valid [OF valid_day1 [OF assms(1)] assms(2)]] .

lemma dt_le_last_days:
  assumes "valid_datetime t" "minus_days t k = Inr s" "0 \<le> k"
  shows "dt_le s t"
  using dt_le_minus_days [OF assms(1) assms(3) assms(2)] .

section \<open>The period resolver\<close>

text \<open>
  C3. For every period token and every reference instant, the window that
  \<^verbatim>\<open>get_date_range\<close> returns has its start no later than its end whenever it is a
  bounded one, and the token \<^verbatim>\<open>All Time\<close> resolves to the unbounded window, both
  boundaries \<open>None\<close>. The reference instant is the date passed, or \<open>now\<close> when none is.
\<close>

theorem get_date_range_start_le_end:
  assumes "valid_datetime (case reference_date of None \<Rightarrow> now | Some r \<Rightarrow> r)"
  shows "(\<forall>s e. get_date_range now filter_option reference_date = Inr (Some s, Some e) \<longrightarrow> dt_le s e)
       \<and> get_date_range now ''All Time'' reference_date = Inr (None, None)"
proof -
  define ref where "ref = (case reference_date of None \<Rightarrow> now | Some r \<Rightarrow> r)"
  define today where "today = ref\<lparr>hour := 0, minute := 0, second := 0, microsecond := 0\<rparr>"
  have vt: "valid_datetime today"
    using assms unfolding today_def ref_def by (rule valid_midnight)
  have new: "datetime_new today = Inr today" by (simp add: datetime_new_def vt)
  have 1: "dt_le s e" if "get_date_range now filter_option reference_date = Inr (Some s, Some e)" for s e
    using that vt unfolding get_date_range_def Let_def ref_def [symmetric] today_def [symmetric] new
    by (auto simp: datetime_new_def dt_le_refl dt_le_prev_year split: if_splits sum.splits
          intro: dt_le_day1 dt_le_jan1 dt_le_prev_month elim: dt_le_last_days)
  have 2: "get_date_range now ''All Time'' reference_date = Inr (None, None)"
    unfolding get_date_range_def Let_def ref_def [symmetric] today_def [symmetric] new
    by simp
  from 1 2 show ?thesis by blast
qed

theorem get_date_range_start_le_end_witness:
  "valid_datetime \<lparr>year = 2024, month = 3, day = 15, hour = 10, minute = 30, second = 0, microsecond = 0\<rparr>
   \<and> get_date_range \<lparr>year = 1999, month = 1, day = 1, hour = 0, minute = 0, second = 0, microsecond = 0\<rparr>
        ''Last 7 Days''
        (Some \<lparr>year = 2024, month = 3, day = 15, hour = 10, minute = 30, second = 0, microsecond = 0\<rparr>)
       = Inr (Some \<lparr>year = 2024, month = 3, day = 9, hour = 0, minute = 0, second = 0, microsecond = 0\<rparr>,
              Some \<lparr>year = 2024, month = 3, day = 15, hour = 0, minute = 0, second = 0, microsecond = 0\<rparr>)
   \<and> dt_le \<lparr>year = 2024, month = 3, day = 9, hour = 0, minute = 0, second = 0, microsecond = 0\<rparr>
            \<lparr>year = 2024, month = 3, day = 15, hour = 0, minute = 0, second = 0, microsecond = 0\<rparr>"
proof -
  let ?now = "\<lparr>year = 1999, month = 1, day = 1, hour = 0, minute = 0, second = 0, microsecond = 0\<rparr>"
  let ?ref = "\<lparr>year = 2024, month = 3, day = 15, hour = 10, minute = 30, second = 0, microsecond = 0\<rparr>"
  have v: "valid_datetime ?ref" by code_simp
  have g: "get_date_range ?now ''Last 7 Days'' (Some ?ref)
       = Inr (Some \<lparr>year = 2024, month = 3, day = 9, hour = 0, minute = 0, second = 0, microsecond = 0\<rparr>,
              Some \<lparr>year = 2024, month = 3, day = 15, hour = 0, minute = 0, second = 0, microsecond = 0\<rparr>)"
    by code_simp
  from get_date_range_start_le_end
    [where reference_date = "Some ?ref" and now = ?now and filter_option = "''Last 7 Days''"] v g
  show ?thesis by simp
qed

subsection \<open>The resolver on a valid reference instant\<close>

lemma get_date_range_today:
  assumes "valid_datetime ref"
  shows "get_date_range now tok (Some ref) =
    (let today = midnight ref in
      if tok = ''Today'' then Inr (Some today, Some today)
      else if tok = ''Yesterday'' then
        (case minus_days today 1 of Inl err \<Rightarrow> Inl err
         | Inr yesterday \<Rightarrow> Inr (Some yesterday, Some yesterday))
      else if tok = ''Last 7 Days'' then
        (case minus_days today 6 of Inl err \<Rightarrow> Inl err
         | Inr s \<Rightarrow> Inr (Some s, Some today))
      else if tok = ''Last 30 Days'' then
        (case minus_days today 29 of Inl err \<Rightarrow> Inl err
         | Inr s \<Rightarrow> Inr (Some s, Some today))
      else if tok = ''Last 90 Days'' then
        (case minus_days today 89 of Inl err \<Rightarrow> Inl err
         | Inr s \<Rightarrow> Inr (Some s, Some today))
      else if tok = ''Last 180 Days'' then
        (case minus_days today 179 of Inl err \<Rightarrow> Inl err
         | Inr s \<Rightarrow> Inr (Some s, Some today))
      else if tok = ''Last 365 Days'' then
        (case minus_days today 364 of Inl err \<Rightarrow> Inl err
         | Inr s \<Rightarrow> Inr (Some s, Some today))
      else if tok = ''This Month'' then Inr (Some (today\<lparr>day := 1\<rparr>), Some today)
      else if tok = ''Previous Month'' then
        (case minus_days (today\<lparr>day := 1\<rparr>) 1 of Inl err \<Rightarrow> Inl err
         | Inr l \<Rightarrow> Inr (Some (l\<lparr>day := 1\<rparr>), Some l))
      else if tok = ''This Year'' then Inr (Some (today\<lparr>month := 1, day := 1\<rparr>), Some today)
      else if tok = ''Previous Year'' then
        (if 2 \<le> year ref
         then Inr (Some (today\<lparr>year := year today - 1, month := 1, day := 1\<rparr>),
                   Some (today\<lparr>year := year today - 1, month := 12, day := 31\<rparr>))
         else Inl ValueError)
      else Inr (None, None))"
proof -
  have vt: "valid_datetime (midnight ref)"
    unfolding midnight_def using assms by (rule valid_midnight)
  have new: "datetime_new (ref\<lparr>hour := 0, minute := 0, second := 0, microsecond := 0\<rparr>) = Inr (midnight ref)"
    using vt by (simp add: datetime_new_def midnight_def)
  have d1: "datetime_new ((midnight ref)\<lparr>day := 1\<rparr>) = Inr ((midnight ref)\<lparr>day := 1\<rparr>)"
    using valid_day1 [OF vt] by (simp add: datetime_new_def)
  have j1: "datetime_new ((midnight ref)\<lparr>month := 1, day := 1\<rparr>) = Inr ((midnight ref)\<lparr>month := 1, day := 1\<rparr>)"
    using valid_jan1 [OF vt] by (simp add: datetime_new_def)
  have l1: "datetime_new (l\<lparr>day := 1\<rparr>) = Inr (l\<lparr>day := 1\<rparr>)"
    if "minus_days ((midnight ref)\<lparr>day := 1\<rparr>) 1 = Inr l" for l
    using valid_day1 [OF minus_days_valid [OF valid_day1 [OF vt] that]] by (simp add: datetime_new_def)
  have ym: "year (midnight ref) = year ref" by (simp add: midnight_def)
  have py: "datetime_new ((midnight ref)\<lparr>year := year (midnight ref) - 1, month := 1, day := 1\<rparr>)
        = Inr ((midnight ref)\<lparr>year := year (midnight ref) - 1, month := 1, day := 1\<rparr>)"
      "datetime_new ((midnight ref)\<lparr>year := year (midnight ref) - 1, month := 12, day := 31\<rparr>)
        = Inr ((midnight ref)\<lparr>year := year (midnight ref) - 1, month := 12, day := 31\<rparr>)"
    if "2 \<le> year ref"
    using valid_prev_year [OF vt] that by (simp_all add: datetime_new_def ym)
  have pn: "datetime_new ((midnight ref)\<lparr>year := year (midnight ref) - 1, month := 1, day := 1\<rparr>)
        = Inl ValueError" if "\<not> 2 \<le> year ref"
    using that by (simp add: datetime_new_def valid_datetime_def check_date_fields_def ym)
  show ?thesis
    unfolding get_date_range_def Let_def option.case new sum.case
    by (auto simp: d1 j1 l1 py pn split: sum.splits)
qed


lemma midnight_simps:
  "year (midnight d) = year d" "month (midnight d) = month d" "day (midnight d) = day d"
  "hour (midnight d) = 0" "minute (midnight d) = 0" "second (midnight d) = 0"
  "microsecond (midnight d) = 0" "toordinal (midnight d) = toordinal d"
  by (simp_all add: midnight_def toordinal_def)

lemma valid_midnight': "valid_datetime d \<Longrightarrow> valid_datetime (midnight d)"
  unfolding midnight_def by (rule valid_midnight)

lemma minus_days_cases:
  assumes "valid_datetime d" "0 \<le> k"
  shows "(k < toordinal d \<longrightarrow> (\<exists>s. minus_days d k = Inr s))
       \<and> (toordinal d \<le> k \<longrightarrow> minus_days d k = Inl OverflowError)"
  using minus_days_total [OF assms] by (auto simp: minus_days_def Let_def)

lemma last_days_unfold:
  assumes "valid_datetime ref"
  shows "get_date_range now ''Last 7 Days'' (Some ref) =
      (case minus_days (midnight ref) 6 of Inl err \<Rightarrow> Inl err
       | Inr s \<Rightarrow> Inr (Some s, Some (midnight ref)))"
    "get_date_range now ''Last 30 Days'' (Some ref) =
      (case minus_days (midnight ref) 29 of Inl err \<Rightarrow> Inl err
       | Inr s \<Rightarrow> Inr (Some s, Some (midnight ref)))"
    "get_date_range now ''Last 90 Days'' (Some ref) =
      (case minus_days (midnight ref) 89 of Inl err \<Rightarrow> Inl err
       | Inr s \<Rightarrow> Inr (Some s, Some (midnight ref)))"
    "get_date_range now ''Last 180 Days'' (Some ref) =
      (case minus_days (midnight ref) 179 of Inl err \<Rightarrow> Inl err
       | Inr s \<Rightarrow> Inr (Some s, Some (midnight ref)))"
    "get_date_range now ''Last 365 Days'' (Some ref) =
      (case minus_days (midnight ref) 364 of Inl err \<Rightarrow> Inl err
       | Inr s \<Rightarrow> Inr (Some s, Some (midnight ref)))"
  by (simp_all add: get_date_range_today [OF assms] Let_def)

lemma prev_day_of_first:
  assumes "1 \<le> y" "1 \<le> m" "m \<le> 12" "\<not> (y = 1 \<and> m = 1)"
    and p: "prev_month y m = (py, pm)"
  shows "valid_ymd py pm (days_in_month py pm)
       \<and> ymd2ord py pm (days_in_month py pm) = ymd2ord y m 1 - 1"
proof (cases "m = 1")
  case True
  with p have e: "py = y - 1" "pm = 12" by (simp_all add: prev_month_def)
  have "days_before_year y = days_before_year (y - 1) + 365 + (if is_leap (y - 1) then 1 else 0)"
    using dby_step [of "y - 1"] by simp
  then have "ymd2ord (y - 1) 12 31 = ymd2ord y 1 1 - 1"
    using dbm_12 [of "y - 1"] by (simp add: ymd2ord_def dbm_1)
  moreover have "valid_ymd (y - 1) 12 31"
    using assms True by (simp add: valid_ymd_def dim_dec)
  ultimately show ?thesis using True by (simp add: e dim_dec)
next
  case False
  with p have e: "py = y" "pm = m - 1" by (simp_all add: prev_month_def)
  have r: "1 \<le> m - 1" "m - 1 \<le> 11" using assms False by simp_all
  have "days_before_month y m = days_before_month y (m - 1) + days_in_month y (m - 1)"
    using dbm_step [OF r, of y] by simp
  then have "ymd2ord y (m - 1) (days_in_month y (m - 1)) = ymd2ord y m 1 - 1"
    by (simp add: ymd2ord_def)
  moreover have "valid_ymd y (m - 1) (days_in_month y (m - 1))"
    using assms r dim_pos(1) [of "m - 1" y] by (simp add: valid_ymd_def)
  ultimately show ?thesis by (simp add: e)
qed

lemma minus_one_day_of_first:
  assumes v: "valid_datetime d" and d1: "day d = 1"
    and n: "\<not> (year d = 1 \<and> month d = 1)"
    and p: "prev_month (year d) (month d) = (py, pm)"
  shows "minus_days d 1 = Inr (d\<lparr>year := py, month := pm, day := days_in_month py pm\<rparr>)"
proof -
  have b: "1 \<le> year d" "1 \<le> month d" "month d \<le> 12"
    using v by (simp_all add: valid_datetime_def check_date_fields_def)
  from prev_day_of_first [OF b n p]
  have pv: "valid_ymd py pm (days_in_month py pm)"
    and po: "ymd2ord py pm (days_in_month py pm) = toordinal d - 1"
    by (simp_all add: toordinal_def d1)
  have "0 < toordinal d - 1" using ymd2ord_pos [OF pv] po by simp
  moreover have "toordinal d - 1 \<le> MAXORDINAL" using toordinal_bounds(2) [OF v] by simp
  moreover have "ord2ymd (toordinal d - 1) = (py, pm, days_in_month py pm)"
    using ord2ymd_ymd2ord [OF pv] po by simp
  ultimately show ?thesis by (simp add: minus_days_def Let_def)
qed

lemma minus_one_day_overflow:
  assumes "year d = 1" "month d = 1" "day d = 1"
  shows "minus_days d 1 = Inl OverflowError"
  using assms by (simp add: minus_days_def Let_def toordinal_def ymd2ord_def dby_1 dbm_1)

text \<open>
  C6. As stated, for every reference instant, the claim fails in the first days of
  year 1, where the start of the window is before the first day a \<^verbatim>\<open>datetime\<close>
  can hold: the subtraction raises \<^verbatim>\<open>OverflowError\<close>.
\<close>

theorem last_days_window_counterexample:
  "valid_datetime \<lparr>year = 1, month = 1, day = 3, hour = 0, minute = 0, second = 0, microsecond = 0\<rparr>
   \<and> get_date_range \<lparr>year = 1999, month = 1, day = 1, hour = 0, minute = 0, second = 0, microsecond = 0\<rparr>
        ''Last 7 Days'' (Some \<lparr>year = 1, month = 1, day = 3, hour = 0, minute = 0, second = 0, microsecond = 0\<rparr>)
       = Inl OverflowError"
  by code_simp

text \<open>
  C6, amended. For every N among 7, 30, 90, 180 and 365 and every reference instant
  whose day is at least the N-th day of the calendar (ordinal at least N), the token
  \<^verbatim>\<open>Last N Days\<close> resolves to the window from midnight of the reference day minus
  N - 1 days to midnight of the reference day: both ends are midnights, and the
  window spans exactly N calendar days, the reference day included. On an earlier
  reference instant the function raises \<^verbatim>\<open>OverflowError\<close>.
\<close>

theorem last_days_window:
  assumes v: "valid_datetime ref"
    and tok: "(tok, N) \<in> set [(''Last 7 Days'', 7), (''Last 30 Days'', 30), (''Last 90 Days'', 90),
                 (''Last 180 Days'', 180), (''Last 365 Days'', 365)]"
  shows "(N \<le> toordinal ref \<longrightarrow>
           (\<exists>s. get_date_range now tok (Some ref) = Inr (Some s, Some (midnight ref))
              \<and> minus_days (midnight ref) (N - 1) = Inr s
              \<and> valid_datetime s \<and> s = midnight s
              \<and> toordinal (midnight ref) - toordinal s + 1 = N))
       \<and> (toordinal ref < N \<longrightarrow> get_date_range now tok (Some ref) = Inl OverflowError)"
proof -
  have vt: "valid_datetime (midnight ref)" using v by (rule valid_midnight')
  have t: "(tok = ''Last 7 Days'' \<and> N = 7) \<or> (tok = ''Last 30 Days'' \<and> N = 30)
      \<or> (tok = ''Last 90 Days'' \<and> N = 90) \<or> (tok = ''Last 180 Days'' \<and> N = 180)
      \<or> (tok = ''Last 365 Days'' \<and> N = 365)"
    using tok by simp
  have g: "get_date_range now tok (Some ref) =
      (case minus_days (midnight ref) (N - 1) of Inl err \<Rightarrow> Inl err
       | Inr s \<Rightarrow> Inr (Some s, Some (midnight ref)))"
    using t last_days_unfold [OF v, of now] by (elim disjE conjE) simp_all
  have k: "0 \<le> N - 1" using t by (elim disjE conjE) simp_all
  note c = minus_days_cases [OF vt k]
  show ?thesis
  proof (intro conjI impI)
    assume "N \<le> toordinal ref"
    then obtain s where s: "minus_days (midnight ref) (N - 1) = Inr s"
      using c by (auto simp: midnight_simps)
    note f = minus_days_Inr [OF s]
    have "s = midnight s" using f by (simp add: midnight_def midnight_simps)
    moreover have "toordinal (midnight ref) - toordinal s + 1 = N" using f by simp
    ultimately show "\<exists>s. get_date_range now tok (Some ref) = Inr (Some s, Some (midnight ref))
              \<and> minus_days (midnight ref) (N - 1) = Inr s
              \<and> valid_datetime s \<and> s = midnight s
              \<and> toordinal (midnight ref) - toordinal s + 1 = N"
      using s minus_days_valid [OF vt s] by (simp add: g)
  next
    assume "toordinal ref < N"
    then have "minus_days (midnight ref) (N - 1) = Inl OverflowError"
      using c by (simp add: midnight_simps)
    then show "get_date_range now tok (Some ref) = Inl OverflowError" by (simp add: g)
  qed
qed

theorem last_days_window_witness:
  "valid_datetime \<lparr>year = 2024, month = 3, day = 15, hour = 10, minute = 30, second = 0, microsecond = 0\<rparr>
   \<and> (''Last 7 Days'', 7) \<in> set [(''Last 7 Days'', 7), (''Last 30 Days'', 30), (''Last 90 Days'', 90),
                 (''Last 180 Days'', 180), (''Last 365 Days'', 365 :: int)]
   \<and> 7 \<le> toordinal \<lparr>year = 2024, month = 3, day = 15, hour = 10, minute = 30, second = 0, microsecond = 0\<rparr>
   \<and> get_date_range \<lparr>year = 1999, month = 1, day = 1, hour = 0, minute = 0, second = 0, microsecond = 0\<rparr>
        ''Last 7 Days'' (Some \<lparr>year = 2024, month = 3, day = 15, hour = 10, minute = 30, second = 0, microsecond = 0\<rparr>)
       = Inr (Some \<lparr>year = 2024, month = 3, day = 9, hour = 0, minute = 0, second = 0, microsecond = 0\<rparr>,
              Some \<lparr>year = 2024, month = 3, day = 15, hour = 0, minute = 0, second = 0, microsecond = 0\<rparr>)
   \<and> toordinal \<lparr>year = 2024, month = 3, day = 15, hour = 0, minute = 0, second = 0, microsecond = 0\<rparr>
       - toordinal \<lparr>year = 2024, month = 3, day = 9, hour = 0, minute = 0, second = 0, microsecond = 0\<rparr> + 1 = 7"
proof -
  let ?ref = "\<lparr>year = 2024, month = 3, day = 15, hour = 10, minute = 30, second = 0, microsecond = 0\<rparr>"
  let ?now = "\<lparr>year = 1999, month = 1, day = 1, hour = 0, minute = 0, second = 0, microsecond = 0\<rparr>"
  have v: "valid_datetime ?ref" by code_simp
  have o: "7 \<le> toordinal ?ref" by code_simp
  have m: "midnight ?ref = \<lparr>year = 2024, month = 3, day = 15, hour = 0, minute = 0, second = 0, microsecond = 0\<rparr>"
    by (simp add: midnight_def)
  have s: "minus_days \<lparr>year = 2024, month = 3, day = 15, hour = 0, minute = 0, second = 0, microsecond = 0\<rparr> 6
      = Inr \<lparr>year = 2024, month = 3, day = 9, hour = 0, minute = 0, second = 0, microsecond = 0\<rparr>"
    by code_simp
  from last_days_window [OF v, where tok = "''Last 7 Days''" and N = 7 and now = ?now] o
  show ?thesis by (auto simp: m s v)
qed

text \<open>
  C4. As stated, for every reference instant, the claim fails in January of year 1:
  the day before the first of the month is not a day a \<^verbatim>\<open>datetime\<close> can hold, and
  the subtraction raises \<^verbatim>\<open>OverflowError\<close>.
\<close>

theorem previous_month_window_counterexample:
  "valid_datetime \<lparr>year = 1, month = 1, day = 15, hour = 0, minute = 0, second = 0, microsecond = 0\<rparr>
   \<and> get_date_range \<lparr>year = 1999, month = 1, day = 1, hour = 0, minute = 0, second = 0, microsecond = 0\<rparr>
        ''Previous Month'' (Some \<lparr>year = 1, month = 1, day = 15, hour = 0, minute = 0, second = 0, microsecond = 0\<rparr>)
       = Inl OverflowError"
  by code_simp

text \<open>
  C4, amended. For every reference instant that is not in January of year 1, the token
  \<^verbatim>\<open>Previous Month\<close> resolves to the first and the last day of the month before the
  reference month, both at midnight. In particular a reference in March of a leap
  year gives February 1 to February 29 of that year, and a reference in January of
  a year from 2 on gives December 1 to December 31 of the year before. In January
  of year 1 the function raises \<^verbatim>\<open>OverflowError\<close>.
\<close>

theorem previous_month_window:
  assumes v: "valid_datetime ref"
  shows "(\<not> (year ref = 1 \<and> month ref = 1) \<longrightarrow>
           (case prev_month (year ref) (month ref) of (py, pm) \<Rightarrow>
              get_date_range now ''Previous Month'' (Some ref)
              = Inr (Some ((midnight ref)\<lparr>year := py, month := pm, day := 1\<rparr>),
                     Some ((midnight ref)\<lparr>year := py, month := pm, day := days_in_month py pm\<rparr>))))
       \<and> (month ref = 3 \<and> is_leap (year ref) \<longrightarrow>
             get_date_range now ''Previous Month'' (Some ref)
              = Inr (Some ((midnight ref)\<lparr>month := 2, day := 1\<rparr>),
                     Some ((midnight ref)\<lparr>month := 2, day := 29\<rparr>)))
       \<and> (month ref = 1 \<and> 2 \<le> year ref \<longrightarrow>
             get_date_range now ''Previous Month'' (Some ref)
              = Inr (Some ((midnight ref)\<lparr>year := year ref - 1, month := 12, day := 1\<rparr>),
                     Some ((midnight ref)\<lparr>year := year ref - 1, month := 12, day := 31\<rparr>)))
       \<and> (year ref = 1 \<and> month ref = 1 \<longrightarrow>
             get_date_range now ''Previous Month'' (Some ref) = Inl OverflowError)"
proof -
  let ?first = "(midnight ref)\<lparr>day := 1\<rparr>"
  have vf: "valid_datetime ?first" using valid_day1 [OF valid_midnight' [OF v]] .
  have g: "get_date_range now ''Previous Month'' (Some ref) =
      (case minus_days ?first 1 of Inl err \<Rightarrow> Inl err
       | Inr l \<Rightarrow> Inr (Some (l\<lparr>day := 1\<rparr>), Some l))"
    by (simp add: get_date_range_today [OF v] Let_def)
  have gen: "get_date_range now ''Previous Month'' (Some ref)
              = Inr (Some ((midnight ref)\<lparr>year := py, month := pm, day := 1\<rparr>),
                     Some ((midnight ref)\<lparr>year := py, month := pm, day := days_in_month py pm\<rparr>))"
    if "\<not> (year ref = 1 \<and> month ref = 1)" "prev_month (year ref) (month ref) = (py, pm)" for py pm
    using minus_one_day_of_first [OF vf, of py pm] that
    by (simp add: g midnight_simps)
  have 1: "\<not> (year ref = 1 \<and> month ref = 1) \<longrightarrow>
           (case prev_month (year ref) (month ref) of (py, pm) \<Rightarrow>
              get_date_range now ''Previous Month'' (Some ref)
              = Inr (Some ((midnight ref)\<lparr>year := py, month := pm, day := 1\<rparr>),
                     Some ((midnight ref)\<lparr>year := py, month := pm, day := days_in_month py pm\<rparr>)))"
    using gen by (cases "prev_month (year ref) (month ref)") simp
  have 2: "get_date_range now ''Previous Month'' (Some ref)
              = Inr (Some ((midnight ref)\<lparr>month := 2, day := 1\<rparr>),
                     Some ((midnight ref)\<lparr>month := 2, day := 29\<rparr>))"
    if "month ref = 3 \<and> is_leap (year ref)"
  proof -
    have "(midnight ref)\<lparr>year := year ref, month := 2, day := 1\<rparr> = (midnight ref)\<lparr>month := 2, day := 1\<rparr>"
      "(midnight ref)\<lparr>year := year ref, month := 2, day := 29\<rparr> = (midnight ref)\<lparr>month := 2, day := 29\<rparr>"
      by (simp_all add: midnight_def)
    then show ?thesis
      using gen [of "year ref" 2] that by (simp add: prev_month_def days_in_month_def)
  qed
  have 3: "get_date_range now ''Previous Month'' (Some ref)
              = Inr (Some ((midnight ref)\<lparr>year := year ref - 1, month := 12, day := 1\<rparr>),
                     Some ((midnight ref)\<lparr>year := year ref - 1, month := 12, day := 31\<rparr>))"
    if "month ref = 1 \<and> 2 \<le> year ref"
    using gen [of "year ref - 1" 12] that by (simp add: prev_month_def dim_dec)
  have 4: "get_date_range now ''Previous Month'' (Some ref) = Inl OverflowError"
    if "year ref = 1 \<and> month ref = 1"
    using minus_one_day_overflow [of ?first] that by (simp add: g midnight_simps)
  from 1 2 3 4 show ?thesis by blast
qed

theorem previous_month_window_witness:
  "valid_datetime \<lparr>year = 2024, month = 3, day = 15, hour = 10, minute = 30, second = 0, microsecond = 0\<rparr>
   \<and> month \<lparr>year = 2024, month = 3, day = 15, hour = 10, minute = 30, second = 0, microsecond = 0\<rparr> = 3
   \<and> is_leap (year \<lparr>year = 2024, month = 3, day = 15, hour = 10, minute = 30, second = 0, microsecond = 0\<rparr>)
   \<and> get_date_range \<lparr>year = 1999, month = 1, day = 1, hour = 0, minute = 0, second = 0, microsecond = 0\<rparr>
        ''Previous Month'' (Some \<lparr>year = 2024, month = 3, day = 15, hour = 10, minute = 30, second = 0, microsecond = 0\<rparr>)
       = Inr (Some \<lparr>year = 2024, month = 2, day = 1, hour = 0, minute = 0, second = 0, microsecond = 0\<rparr>,
              Some \<lparr>year = 2024, month = 2, day = 29, hour = 0, minute = 0, second = 0, microsecond = 0\<rparr>)"
proof -
  let ?ref = "\<lparr>year = 2024, month = 3, day = 15, hour = 10, minute = 30, second = 0, microsecond = 0\<rparr>"
  let ?now = "\<lparr>year = 1999, month = 1, day = 1, hour = 0, minute = 0, second = 0, microsecond = 0\<rparr>"
  have v: "valid_datetime ?ref" by code_simp
  have l: "is_leap (year ?ref)" by code_simp
  from previous_month_window [OF v, of ?now] l
  show ?thesis by (simp add: v midnight_def)
qed


section \<open>Frames\<close>

lemma get_col_name: "get_col df c = Some col \<Longrightarrow> name col = c"
  by (auto simp: get_col_def dest: find_Some_iff [THEN iffD1])

lemma get_col_set_col [simp]: "get_col (set_col df col) (name col) = Some col"
  by (induction df) (simp_all add: get_col_def)

lemma get_col_set_col_other: "n \<noteq> name col \<Longrightarrow> get_col (set_col df col) n = get_col df n"
  by (induction df) (auto simp: get_col_def)

lemma get_col_select_rows:
  "get_col (select_rows m df) n
   = map_option (\<lambda>x. x\<lparr>cells := select m (cells x)\<rparr>) (get_col df n)"
  by (induction df) (simp_all add: get_col_def select_rows_def)

lemma drop_col_set_col [simp]: "drop_col (set_col df col) (name col) = drop_col df (name col)"
  by (induction df) (simp_all add: drop_col_def)

lemma drop_col_select_rows: "drop_col (select_rows m df) n = select_rows m (drop_col df n)"
  by (induction df) (simp_all add: drop_col_def select_rows_def)

lemma select_Nil [simp]: "select m [] = []" "select [] xs = []"
  by (simp_all add: select_def)

lemma select_Cons [simp]:
  "select (b # m) (x # xs) = (if b then x # select m xs else select m xs)"
  by (simp add: select_def)

lemma select_select:
  "select (map P (select m ys)) (select m xs) = select (map (\<lambda>p. fst p \<and> P (snd p)) (zip m ys)) xs"
proof (induction m arbitrary: xs ys)
  case Nil
  show ?case by simp
next
  case (Cons b m)
  show ?case
  proof (cases xs)
    case Nil
    then show ?thesis by simp
  next
    case xs: (Cons x xs')
    show ?thesis
    proof (cases ys)
      case Nil
      then show ?thesis by simp
    next
      case (Cons y ys')
      with xs Cons.IH [of ys' xs'] show ?thesis by simp
    qed
  qed
qed

lemma select_rows_select_rows:
  "select_rows (map P (select m ys)) (select_rows m df)
   = select_rows (map (\<lambda>p. fst p \<and> P (snd p)) (zip m ys)) df"
  by (simp add: select_rows_def select_select)

lemma zip_map_self: "map (\<lambda>p. fst p \<and> P (snd p)) (zip (map Q ys) ys) = map (\<lambda>y. Q y \<and> P y) ys"
  by (induction ys) simp_all

section \<open>The row filter\<close>

text \<open>The filter with its three steps on the rows merged into one mask.\<close>

lemma filter_data_by_date_unfold:
  assumes c: "get_col df date_column = Some col"
    and p: "to_datetime L (dtype col, cells col) = (d, ps)"
  shows "filter_data_by_date L df (Some s) (Some e) date_column =
    (if d = Plain then Inl AttributeError
     else if d = Datetime64tz then Inl TypeError
     else Inr (drop_col (select_rows (map (window_mask s e) ps)
                 (set_col df (col\<lparr>dtype := d, cells := ps\<rparr>))) ''date_only''))"
proof -
  let ?pcol = "col\<lparr>dtype := d, cells := ps\<rparr>"
  let ?df1 = "set_col df ?pcol"
  let ?m1 = "map notna ps"
  let ?df2 = "select_rows ?m1 ?df1"
  let ?col2 = "?pcol\<lparr>cells := select ?m1 ps\<rparr>"
  let ?a = "normalize (Timestamp s)"
  let ?b = "normalize (Timestamp e) + Timedelta_days 1 - Timedelta_seconds 1"
  let ?dcol = "?col2\<lparr>name := ''date_only'', cells := map normalize_cell (select ?m1 ps)\<rparr>"
  have n: "name ?pcol = date_column" using get_col_name [OF c] by simp
  have tc: "to_datetime_col L col = ?pcol" by (simp add: to_datetime_col_def p)
  have g1: "get_col ?df1 date_column = Some ?pcol" using get_col_set_col [of df ?pcol] n by simp
  have d2: "dropna ?df1 date_column = ?df2" by (simp add: dropna_def g1)
  have g2: "get_col ?df2 date_column = Some ?col2" by (simp add: get_col_select_rows g1)
  have nd: "name ?dcol = ''date_only''" by simp
  have "drop_col (select_rows (map (in_window ?a ?b) (map normalize_cell (select ?m1 ps)))
          (set_col ?df2 ?dcol)) ''date_only''
      = drop_col (select_rows (map (\<lambda>c. in_window ?a ?b (normalize_cell c)) (select ?m1 ps)) ?df2)
          ''date_only''"
    using drop_col_set_col [of ?df2 ?dcol]
    by (simp add: drop_col_select_rows comp_def del: drop_col_set_col)
  also have "\<dots> = drop_col (select_rows (map (window_mask s e) ps) ?df1) ''date_only''"
  proof -
    have "map (\<lambda>p. fst p \<and> in_window ?a ?b (normalize_cell (snd p))) (zip ?m1 ps)
          = map (window_mask s e) ps"
      using zip_map_self [of "\<lambda>c. in_window ?a ?b (normalize_cell c)" notna ps]
      by (simp add: window_mask_def [abs_def])
    then show ?thesis
      using select_rows_select_rows [of "\<lambda>c. in_window ?a ?b (normalize_cell c)" ?m1 ps ?df1]
      by simp
  qed
  finally have r: "drop_col (select_rows (map (in_window ?a ?b) (map normalize_cell (select ?m1 ps)))
          (set_col ?df2 ?dcol)) ''date_only''
      = drop_col (select_rows (map (window_mask s e) ps) ?df1) ''date_only''" .
  show ?thesis
    unfolding filter_data_by_date_def
    using r by (simp add: c tc d2 g2 Let_def del: set_col.simps)
qed





lemma filter_data_by_date_None:
  "get_col df date_column = None
   \<Longrightarrow> filter_data_by_date L df (Some s) (Some e) date_column = Inl KeyError"
  by (simp add: filter_data_by_date_def)







section \<open>The aggregation\<close>

lemma traverse_cong:
  "(\<And>x. x \<in> set xs \<Longrightarrow> f x = g x) \<Longrightarrow> traverse f xs = traverse g xs"
proof (induction xs)
  case Nil
  show ?case by simp
next
  case (Cons a xs)
  have t: "traverse f xs = traverse g xs" by (rule Cons.IH) (simp add: Cons.prems)
  have h: "f a = g a" by (simp add: Cons.prems)
  show ?case unfolding traverse.simps t h ..
qed

lemma traverse_Inr:
  "traverse f xs = Inr ys \<Longrightarrow> list_all2 (\<lambda>x y. f x = Inr y) xs ys"
  by (induction xs arbitrary: ys) (auto split: sum.splits)

lemma traverse_set:
  assumes "traverse f xs = Inr ys" "y \<in> set ys"
  shows "\<exists>x\<in>set xs. f x = Inr y"
  using traverse_Inr [OF assms(1)] assms(2)
  by (induction rule: list_all2_induct) auto

lemma traverse_map:
  assumes "traverse f xs = Inr ys" "\<And>x y. f x = Inr y \<Longrightarrow> h y = k x"
  shows "map h ys = map k xs"
  using traverse_Inr [OF assms(1)] by (induction rule: list_all2_induct) (simp_all add: assms(2))

lemma select_map_self: "select (map P xs) xs = filter P xs"
  by (induction xs) simp_all

lemma group_cells_select:
  "k \<noteq> NA \<Longrightarrow> group_cells (select (map notna ks) ks) (select (map notna ks) vs) k = group_cells ks vs k"
proof (induction ks arbitrary: vs)
  case Nil
  show ?case by (simp add: group_cells_def)
next
  case (Cons a ks)
  show ?case
  proof (cases vs)
    case Nil
    then show ?thesis by (simp add: group_cells_def)
  next
    case (Cons v vs')
    with Cons.IH [OF Cons.prems, of vs'] Cons.prems show ?thesis
      by (auto simp: group_cells_def notna_def)
  qed
qed

lemma group_keys_select: "group_keys (select (map notna ks) ks) = group_keys ks"
  by (simp add: group_keys_def select_map_self)

lemma set_group_keys: "set (group_keys ks) = {k \<in> set ks. k \<noteq> NA}"
  by (auto simp: group_keys_def notna_def)

lemma distinct_group_keys: "distinct (group_keys ks)"
  by (simp add: group_keys_def)

lemma groupby_agg_drop: "groupby_agg L (drop_missing_category df) = groupby_agg L df"
proof (cases "get_col df ''Transaction Category''")
  case None
  then show ?thesis by (simp add: drop_missing_category_def dropna_def)
next
  case (Some kc)
  let ?m = "map notna (cells kc)"
  have d: "drop_missing_category df = select_rows ?m df"
    by (simp add: drop_missing_category_def dropna_def Some)
  show ?thesis
  proof (cases "get_col df ''Amount Paid''")
    case None
    then show ?thesis by (simp add: d groupby_agg_def get_col_select_rows Some)
  next
    case vc: (Some vc)
    have "traverse (agg_group L (select ?m (cells kc)) (select ?m (cells vc))) (group_keys (cells kc))
        = traverse (agg_group L (cells kc) (cells vc)) (group_keys (cells kc))"
      by (rule traverse_cong) (simp add: agg_group_def group_cells_select set_group_keys)
    then show ?thesis
      by (simp add: d groupby_agg_def get_col_select_rows Some vc group_keys_select)
  qed
qed

lemma aggregate_drop: "aggregate L (drop_missing_category df) = aggregate L df"
  by (simp add: aggregate_def groupby_agg_drop)

lemma aggregate_Inr:
  assumes "aggregate L df = Inr t"
  obtains t0 t1 where "groupby_agg L df = Inr t0" "traverse (round_total L) t0 = Inr t1"
    "sort_values L t1 = Inr t"
  using assms by (auto simp: aggregate_def split: sum.splits)

lemma round_total_Inr:
  assumes "round_total L g0 = Inr g"
  shows "Category g = Category g0" "n_transactions g = n_transactions g0"
    "series_round L (Total_Amount_Paid g0) = Inr (Total_Amount_Paid g)"
  using assms by (auto simp: round_total_def split: sum.splits)

lemma agg_group_Inr:
  assumes "agg_group L ks vs k = Inr g0"
  shows "Category g0 = k" "n_transactions g0 = length (filter notna (group_cells ks vs k))"
    "groupby_sum L (filter notna (group_cells ks vs k)) = Inr (Total_Amount_Paid g0)"
  using assms by (auto simp: agg_group_def Let_def split: sum.splits)

lemma groupby_agg_Inr:
  assumes "groupby_agg L df = Inr t0"
  obtains kc vc where "get_col df ''Transaction Category'' = Some kc"
    "get_col df ''Amount Paid'' = Some vc"
    "traverse (agg_group L (cells kc) (cells vc)) (group_keys (cells kc)) = Inr t0"
  using assms by (auto simp: groupby_agg_def split: option.splits)

lemma aggregate_rows:
  assumes s: "sort_permutes L" and a: "aggregate L df = Inr t"
  shows "mset (map Category t) = mset (categories df)"
    and "\<And>g. g \<in> set t \<Longrightarrow>
           n_transactions g = length (present_amounts df (Category g))
           \<and> (case groupby_sum L (present_amounts df (Category g)) of
                Inl err \<Rightarrow> False
              | Inr s \<Rightarrow> series_round L s = Inr (Total_Amount_Paid g))"
proof -
  from a obtain t0 t1 where t0: "groupby_agg L df = Inr t0"
    and t1: "traverse (round_total L) t0 = Inr t1" and t: "sort_values L t1 = Inr t"
    by (rule aggregate_Inr)
  from t0 obtain kc vc where kc: "get_col df ''Transaction Category'' = Some kc"
    and vc: "get_col df ''Amount Paid'' = Some vc"
    and tr: "traverse (agg_group L (cells kc) (cells vc)) (group_keys (cells kc)) = Inr t0"
    by (rule groupby_agg_Inr)
  have m: "mset t = mset t1" using s t by (simp add: sort_permutes_def)
  have c1: "map Category t1 = map Category t0"
    using t1 by (rule traverse_map) (simp add: round_total_Inr)
  have c0: "map Category t0 = map id (group_keys (cells kc))"
    using tr by (rule traverse_map) (simp add: agg_group_Inr)
  have "mset (map Category t) = mset (map Category t1)"
    using m by (metis mset_map)
  then show "mset (map Category t) = mset (categories df)"
    by (simp add: c1 c0 categories_def kc)
  fix g
  assume "g \<in> set t"
  then have "g \<in> set t1" using m by (metis set_mset_mset)
  then obtain g0 where g0: "g0 \<in> set t0" "round_total L g0 = Inr g"
    using traverse_set [OF t1] by blast
  then obtain k where k: "agg_group L (cells kc) (cells vc) k = Inr g0"
    using traverse_set [OF tr] by blast
  have p: "present_amounts df (Category g) = filter notna (group_cells (cells kc) (cells vc) k)"
    by (simp add: present_amounts_def kc vc round_total_Inr(1) [OF g0(2)] agg_group_Inr(1) [OF k])
  show "n_transactions g = length (present_amounts df (Category g))
           \<and> (case groupby_sum L (present_amounts df (Category g)) of
                Inl err \<Rightarrow> False
              | Inr s \<Rightarrow> series_round L s = Inr (Total_Amount_Paid g))"
    unfolding p
    by (simp add: round_total_Inr [OF g0(2)] agg_group_Inr [OF k])
qed

lemma aggregate_sorted:
  assumes "sorts_descending L" "aggregate L df = Inr t"
  shows "sorted_wrt descending t"
  using assms by (auto simp: sorts_descending_def elim!: aggregate_Inr)

section \<open>The pipeline\<close>

lemma get_date_range_None: "get_date_range now tok None = get_date_range now tok (Some now)"
  by (simp add: get_date_range_def)

lemma get_date_range_all_time:
  assumes "valid_datetime now"
  shows "get_date_range now ''All Time'' None = Inr (None, None)"
  unfolding get_date_range_None by (simp add: get_date_range_today [OF assms] Let_def)

lemma summarize_Inr:
  assumes "summarize L orig sd ed sel = Inr r"
  shows "original_df r = Some orig" "start_date r = sd" "end_date r = ed" "reconciled L r"
    "case transaction_summary r of
       None \<Rightarrow> frame_empty sel
     | Some t \<Rightarrow> \<not> frame_empty sel \<and> aggregate L sel = Inr t"
  using assms
  by (auto simp: summarize_def reconciled_def split: if_splits sum.splits)

lemma load_and_process_data_Inr:
  assumes "load_and_process_data L now (Some df) tok dc = Inr r"
  obtains sel where "summarize L df (start_date r) (end_date r) sel = Inr r"
    "get_date_range now tok None = Inr (start_date r, end_date r)"
proof -
  from assms obtain sd ed sel where g: "get_date_range now tok None = Inr (sd, ed)"
    and s: "summarize L df sd ed sel = Inr r"
    unfolding load_and_process_data_def Let_def option.case
    by (auto split: sum.splits prod.splits)
  from summarize_Inr(2,3) [OF s] g s that show ?thesis by simp
qed

lemma frame_empty_select_rows: "frame_empty df \<Longrightarrow> frame_empty (select_rows m df)"
  by (induction df) (simp_all add: frame_empty_def select_rows_def)

lemma frame_empty_drop_col: "frame_empty df \<Longrightarrow> frame_empty (drop_col df c)"
  by (induction df) (simp_all add: frame_empty_def drop_col_def)

lemma frame_empty_set_col: "frame_empty df \<Longrightarrow> cells col = [] \<Longrightarrow> frame_empty (set_col df col)"
  by (induction df) (simp_all add: frame_empty_def)

lemma frame_empty_get_col: "frame_empty df \<Longrightarrow> get_col df n = Some col \<Longrightarrow> cells col = []"
  by (induction df) (auto simp: frame_empty_def get_col_def split: if_splits)

lemma frame_empty_to_datetime:
  assumes "keeps_length L" "frame_empty df" "get_col df dc = Some col"
  shows "frame_empty (dropna (set_col df (to_datetime_col L col)) dc)"
proof -
  obtain d ps where p: "to_datetime L (dtype col, cells col) = (d, ps)" by force
  have "length ps = length (cells col)"
    using assms(1) p unfolding keeps_length_def by (metis snd_conv)
  then have "ps = []" using frame_empty_get_col [OF assms(2,3)] by simp
  then have "frame_empty (set_col df (to_datetime_col L col))"
    using assms(2) by (simp add: frame_empty_set_col to_datetime_col_def p)
  then show ?thesis
    by (simp add: dropna_def frame_empty_select_rows split: option.splits)
qed

lemma frame_empty_filter:
  assumes k: "keeps_length L" and e: "frame_empty df"
    and f: "filter_data_by_date L df sd ed dc = Inr df'"
  shows "frame_empty df'"
proof (cases "\<exists>s e. sd = Some s \<and> ed = Some e")
  case False
  then have "filter_data_by_date L df sd ed dc = Inr df"
    by (cases sd; cases ed) (simp_all add: filter_data_by_date_def)
  with f e show ?thesis by simp
next
  case True
  then obtain s e' where se: "sd = Some s" "ed = Some e'" by auto
  from f obtain col where c: "get_col df dc = Some col"
    by (cases "get_col df dc") (simp_all add: se filter_data_by_date_None)
  obtain d ps where p: "to_datetime L (dtype col, cells col) = (d, ps)" by force
  have "length ps = length (cells col)"
    using k p unfolding keeps_length_def by (metis snd_conv)
  then have "ps = []" using frame_empty_get_col [OF e c] by simp
  then have "frame_empty (set_col df (col\<lparr>dtype := d, cells := ps\<rparr>))"
    using e by (simp add: frame_empty_set_col)
  then have "frame_empty (drop_col (select_rows (map (window_mask s e') ps)
                 (set_col df (col\<lparr>dtype := d, cells := ps\<rparr>))) ''date_only'')"
    by (intro frame_empty_drop_col frame_empty_select_rows)
  with f show ?thesis
    using filter_data_by_date_unfold [OF c p, of s e']
    by (simp add: se split: if_splits)
qed

lemma load_and_process_data_empty:
  assumes k: "keeps_length L" and e: "frame_empty df"
    and l: "load_and_process_data L now (Some df) tok dc = Inr r"
  shows "r = empty_result df (start_date r) (end_date r)"
proof -
  let ?df1 = "case get_col df dc of None \<Rightarrow> df
              | Some col \<Rightarrow> dropna (set_col df (to_datetime_col L col)) dc"
  have e1: "frame_empty ?df1"
    using e frame_empty_to_datetime [OF k e] by (simp split: option.splits)
  from l obtain sd ed sel where
    sel: "(if sd \<noteq> None \<and> dc \<in> set (column_names ?df1)
           then filter_data_by_date L ?df1 sd ed dc else Inr ?df1) = Inr sel"
    and s: "summarize L df sd ed sel = Inr r"
    unfolding load_and_process_data_def Let_def option.case
    by (auto split: sum.splits prod.splits)
  have "frame_empty sel"
    using sel e1 frame_empty_filter [OF k e1] by (auto split: if_splits)
  with s show ?thesis by (auto simp: summarize_def empty_result_def)
qed

lemma load_and_process_data_kept:
  "load_and_process_data L now (Some df) tok dc =
     (case get_date_range now tok None of
        Inl err \<Rightarrow> Inl err
      | Inr (sd, ed) \<Rightarrow>
          (case kept_rows L df dc sd ed of
             Inl err \<Rightarrow> Inl err
           | Inr kept \<Rightarrow> summarize L df sd ed kept))"
  unfolding load_and_process_data_def kept_rows_def Let_def by simp

lemma load_and_process_data_all_time:
  assumes "valid_datetime now"
  shows "load_and_process_data L now (Some df) ''All Time'' dc =
     summarize L df None None
       (case get_col df dc of
          None \<Rightarrow> df
        | Some col \<Rightarrow> dropna (set_col df (to_datetime_col L col)) dc)"
  by (simp add: load_and_process_data_def get_date_range_all_time [OF assms] Let_def)

text \<open>
  The cached function returns what the cache holds for its arguments, and the value of
  the function where it holds nothing: the results it returns are results of runs.
\<close>

lemma load_and_process_data_cached_result:
  "fst (load_and_process_data_cached L now cache file loaded tok dc) =
     (case cache (file, tok, dc) of
        Some r \<Rightarrow> Inr r
      | None \<Rightarrow> load_and_process_data L now loaded tok dc)"
  by (simp add: load_and_process_data_cached_def split: option.splits sum.splits)

section \<open>The library of the examples\<close>

lemma keeps_datetimes_example: "keeps_datetimes example_pandas"
  by (simp add: keeps_datetimes_def example_pandas_def example_to_datetime_def)

lemma keeps_length_example: "keeps_length example_pandas"
  by (simp add: keeps_length_def example_pandas_def example_to_datetime_def split: dtype.splits)

lemma mset_example_sort: "example_sort t = Inr t' \<Longrightarrow> mset t' = mset t"
  by (auto simp: example_sort_def)

lemma sort_permutes_example: "sort_permutes example_pandas"
  by (simp add: sort_permutes_def example_pandas_def mset_example_sort)

lemma descending_numbers:
  "is_number (Total_Amount_Paid g) \<Longrightarrow> is_number (Total_Amount_Paid h)
   \<Longrightarrow> descending g h \<longleftrightarrow> number_of (Total_Amount_Paid h) \<le> number_of (Total_Amount_Paid g)"
  by (cases "Total_Amount_Paid g"; cases "Total_Amount_Paid h")
     (simp_all add: descending_def is_number_def number_of_def)

lemma descending_other: "\<not> is_number (Total_Amount_Paid h) \<Longrightarrow> descending g h"
  by (cases "Total_Amount_Paid g"; cases "Total_Amount_Paid h")
     (simp_all add: descending_def is_number_def)

lemma sorted_wrt_all: "(\<And>x y. y \<in> set xs \<Longrightarrow> P x y) \<Longrightarrow> sorted_wrt P xs"
  by (induction xs) simp_all

lemma sorted_example_sort:
  assumes "example_sort t = Inr t'"
  shows "sorted_wrt descending t'"
proof -
  let ?k = "\<lambda>g. number_of (Total_Amount_Paid g)"
  let ?n = "filter (\<lambda>g. is_number (Total_Amount_Paid g)) t"
  let ?o = "filter (\<lambda>g. \<not> is_number (Total_Amount_Paid g)) t"
  let ?s = "sort_key ?k (rev ?n)"
  have t': "t' = rev ?s @ ?o" using assms by (auto simp: example_sort_def)
  have "sorted (map ?k ?s)" by (rule sorted_sort_key)
  then have s1: "sorted_wrt (\<lambda>a b. ?k a \<le> ?k b) ?s" by (simp only: sorted_map)
  have n: "\<And>x. x \<in> set ?s \<Longrightarrow> is_number (Total_Amount_Paid x)" by simp
  have "sorted_wrt (\<lambda>a b. descending b a) ?s"
  proof (rule sorted_wrt_mono_rel [OF _ s1])
    fix x y
    assume "x \<in> set ?s" "y \<in> set ?s" "?k x \<le> ?k y"
    then show "descending y x" using descending_numbers [of y x] n by blast
  qed
  then have a: "sorted_wrt descending (rev ?s)" by (simp add: sorted_wrt_rev)
  have b: "sorted_wrt descending ?o" by (rule sorted_wrt_all) (simp add: descending_other)
  have c: "\<And>x y. y \<in> set ?o \<Longrightarrow> descending x y" by (simp add: descending_other)
  show ?thesis unfolding t' sorted_wrt_append using a b c by blast
qed

lemma sorts_descending_example: "sorts_descending example_pandas"
  by (simp add: sorts_descending_def example_pandas_def mset_example_sort sorted_example_sort)

section \<open>Frames without rows\<close>

lemma get_col_None: "get_col df n = None \<longleftrightarrow> n \<notin> set (column_names df)"
  by (induction df) (auto simp: get_col_def column_names_def)

lemma summarize_empty: "frame_empty sel \<Longrightarrow> summarize L df sd ed sel = Inr (empty_result df sd ed)"
  by (simp add: summarize_def empty_result_def)

lemma filter_data_by_date_empty:
  assumes k: "keeps_datetimes L" and e: "frame_empty df"
    and c: "get_col df dc = Some col" and d: "dtype col = Datetime64"
  shows "\<exists>sel. filter_data_by_date L df sd ed dc = Inr sel \<and> frame_empty sel"
proof (cases "\<exists>s e. sd = Some s \<and> ed = Some e")
  case False
  then have "filter_data_by_date L df sd ed dc = Inr df"
    by (cases sd; cases ed) (simp_all add: filter_data_by_date_def)
  with e show ?thesis by simp
next
  case True
  then obtain s e' where se: "sd = Some s" "ed = Some e'" by auto
  have ce: "cells col = []" using frame_empty_get_col [OF e c] .
  have p: "to_datetime L (dtype col, cells col) = (Datetime64, [])"
    using k by (simp add: keeps_datetimes_def d ce)
  have "frame_empty (set_col df (col\<lparr>dtype := Datetime64, cells := []\<rparr>))"
    using e by (simp add: frame_empty_set_col)
  then have "frame_empty (drop_col (select_rows (map (window_mask s e') [])
                 (set_col df (col\<lparr>dtype := Datetime64, cells := []\<rparr>))) ''date_only'')"
    by (intro frame_empty_drop_col frame_empty_select_rows)
  then show ?thesis
    using filter_data_by_date_unfold [OF c p, of s e'] by (simp add: se)
qed

lemma load_and_process_data_empty_returns:
  assumes k: "keeps_datetimes L" and e: "frame_empty df" and p: "parses_empty L df dc"
    and g: "get_date_range now tok None = Inr (sd, ed)"
  shows "load_and_process_data L now (Some df) tok dc = Inr (empty_result df sd ed)"
proof (cases "get_col df dc")
  case None
  then show ?thesis
    using e g get_col_None [of df dc]
    by (simp add: load_and_process_data_def summarize_empty)
next
  case (Some col)
  let ?pcol = "col\<lparr>dtype := Datetime64, cells := []\<rparr>"
  let ?df1 = "dropna (set_col df (to_datetime_col L col)) dc"
  have ce: "cells col = []" using frame_empty_get_col [OF e Some] .
  have tc: "to_datetime_col L col = ?pcol"
    using p by (simp add: parses_empty_def Some to_datetime_col_def ce)
  have nm: "name ?pcol = dc" using get_col_name [OF Some] by simp
  have g1: "get_col (set_col df ?pcol) dc = Some ?pcol"
    using get_col_set_col [of df ?pcol] nm by simp
  have d1: "?df1 = select_rows [] (set_col df ?pcol)" by (simp add: tc dropna_def g1)
  have e1: "frame_empty ?df1"
    unfolding d1 using e by (intro frame_empty_select_rows frame_empty_set_col) simp_all
  have c1: "get_col ?df1 dc = Some ?pcol"
    unfolding d1 by (simp add: get_col_select_rows g1)
  obtain sel where sel: "filter_data_by_date L ?df1 sd ed dc = Inr sel" "frame_empty sel"
    using filter_data_by_date_empty [OF k e1 c1, of sd ed] by auto
  have "(if sd \<noteq> None \<and> dc \<in> set (column_names ?df1)
         then filter_data_by_date L ?df1 sd ed dc else Inr ?df1)
        = Inr (if sd \<noteq> None \<and> dc \<in> set (column_names ?df1) then sel else ?df1)"
    using sel by simp
  moreover have "frame_empty (if sd \<noteq> None \<and> dc \<in> set (column_names ?df1) then sel else ?df1)"
    using sel e1 by simp
  ultimately show ?thesis
    unfolding load_and_process_data_def Let_def option.case Some g
    by (simp add: summarize_empty del: not_None_eq)
qed

section \<open>What the row filter returns\<close>







section \<open>What the aggregation returns\<close>

text \<open>
  C1 does not hold for groups of equal total. B is the category of the first row and A
  of the second, both of total 5. \<^verbatim>\<open>groupby\<close> orders the groups by category, and the
  sort leaves the two rows of equal total in this order: A is before B in the table.
\<close>

theorem aggregate_order_counterexample:
  "aggregate example_pandas
     [\<lparr>name = ''Transaction Category'', dtype = Plain, cells = [Text ''B'', Text ''A'']\<rparr>,
      \<lparr>name = ''Amount Paid'', dtype = Plain, cells = [Num 5, Num 5]\<rparr>]
   = Inr [\<lparr>Category = Text ''A'', n_transactions = 1, Total_Amount_Paid = Num 5\<rparr>,
          \<lparr>Category = Text ''B'', n_transactions = 1, Total_Amount_Paid = Num 5\<rparr>]"
  by code_simp

text \<open>
  C1, the order of the totals. The table is what \<^verbatim>\<open>sort_values\<close> returns, and nothing
  after the call reorders it. So for every frame, the table that the aggregation
  returns, and the table of a result that the pipeline returns, are in descending
  order of the total, given that \<^verbatim>\<open>sort_values\<close> returns the rows of its argument in
  descending order of the column. The order of two groups of equal total is the one of
  the sorting algorithm of pandas (by default a quicksort, which is not stable), and
  the statement leaves it open.
\<close>

theorem aggregate_order:
  assumes "sorts_descending L"
  shows "(aggregate L df = Inr t \<longrightarrow> sorted_wrt descending t)
       \<and> (load_and_process_data L now (Some df) tok dc = Inr r \<and> transaction_summary r = Some t
            \<longrightarrow> sorted_wrt descending t)"
proof (intro conjI impI)
  assume "aggregate L df = Inr t"
  with assms show "sorted_wrt descending t" by (rule aggregate_sorted)
next
  assume a: "load_and_process_data L now (Some df) tok dc = Inr r \<and> transaction_summary r = Some t"
  then obtain sel where "summarize L df (start_date r) (end_date r) sel = Inr r"
    by (auto elim: load_and_process_data_Inr)
  from summarize_Inr(5) [OF this] a have "aggregate L sel = Inr t" by simp
  with assms show "sorted_wrt descending t" by (rule aggregate_sorted)
qed

theorem aggregate_order_witness:
  "sorts_descending example_pandas
   \<and> aggregate example_pandas example_df
     = Inr [\<lparr>Category = Text ''A'', n_transactions = 2, Total_Amount_Paid = Num 13\<rparr>,
            \<lparr>Category = Text ''B'', n_transactions = 2, Total_Amount_Paid = Num 7\<rparr>,
            \<lparr>Category = Text ''C'', n_transactions = 1, Total_Amount_Paid = Num 7\<rparr>]
   \<and> load_and_process_data example_pandas example_now (Some example_df) ''Last 7 Days'' ''Created On''
     = Inr \<lparr>original_df = Some example_df,
          transaction_summary = Some
            [\<lparr>Category = Text ''A'', n_transactions = 1, Total_Amount_Paid = Num 10\<rparr>,
             \<lparr>Category = Text ''C'', n_transactions = 1, Total_Amount_Paid = Num 7\<rparr>],
          grand_total_amount = Some (Num 17), grand_total_count = Some 2,
          start_date = Some \<lparr>year = 2024, month = 3, day = 9, hour = 0, minute = 0, second = 0, microsecond = 0\<rparr>,
          end_date = Some \<lparr>year = 2024, month = 3, day = 15, hour = 0, minute = 0, second = 0, microsecond = 0\<rparr>\<rparr>
   \<and> sorted_wrt descending
        [\<lparr>Category = Text ''A'', n_transactions = 2, Total_Amount_Paid = Num (13 :: int)\<rparr>,
         \<lparr>Category = Text ''B'', n_transactions = 2, Total_Amount_Paid = Num 7\<rparr>,
         \<lparr>Category = Text ''C'', n_transactions = 1, Total_Amount_Paid = Num 7\<rparr>]
   \<and> sorted_wrt descending
        [\<lparr>Category = Text ''A'', n_transactions = 1, Total_Amount_Paid = Num (10 :: int)\<rparr>,
         \<lparr>Category = Text ''C'', n_transactions = 1, Total_Amount_Paid = Num 7\<rparr>]"
proof -
  let ?r = "\<lparr>original_df = Some example_df,
          transaction_summary = Some
            [\<lparr>Category = Text ''A'', n_transactions = 1, Total_Amount_Paid = Num 10\<rparr>,
             \<lparr>Category = Text ''C'', n_transactions = 1, Total_Amount_Paid = Num 7\<rparr>],
          grand_total_amount = Some (Num 17), grand_total_count = Some 2,
          start_date = Some \<lparr>year = 2024, month = 3, day = 9, hour = 0, minute = 0, second = 0, microsecond = 0\<rparr>,
          end_date = Some \<lparr>year = 2024, month = 3, day = 15, hour = 0, minute = 0, second = 0, microsecond = 0\<rparr>\<rparr>"
  have a: "aggregate example_pandas example_df
     = Inr [\<lparr>Category = Text ''A'', n_transactions = 2, Total_Amount_Paid = Num 13\<rparr>,
            \<lparr>Category = Text ''B'', n_transactions = 2, Total_Amount_Paid = Num 7\<rparr>,
            \<lparr>Category = Text ''C'', n_transactions = 1, Total_Amount_Paid = Num 7\<rparr>]"
    by code_simp
  have l: "load_and_process_data example_pandas example_now (Some example_df) ''Last 7 Days'' ''Created On''
     = Inr ?r"
    by code_simp
  from aggregate_order [OF sorts_descending_example,
      where df = example_df and now = example_now and tok = "''Last 7 Days''"
        and dc = "''Created On''" and r = ?r
        and t = "[\<lparr>Category = Text ''A'', n_transactions = 2, Total_Amount_Paid = Num 13\<rparr>,
            \<lparr>Category = Text ''B'', n_transactions = 2, Total_Amount_Paid = Num 7\<rparr>,
            \<lparr>Category = Text ''C'', n_transactions = 1, Total_Amount_Paid = Num 7\<rparr>]"]
    aggregate_order [OF sorts_descending_example,
      where df = example_df and now = example_now and tok = "''Last 7 Days''"
        and dc = "''Created On''" and r = ?r
        and t = "[\<lparr>Category = Text ''A'', n_transactions = 1, Total_Amount_Paid = Num 10\<rparr>,
             \<lparr>Category = Text ''C'', n_transactions = 1, Total_Amount_Paid = Num 7\<rparr>]"]
  show ?thesis using sorts_descending_example a l by simp
qed

text \<open>
  C2 does not hold for the count of a group with a missing amount. The group of A has
  one row, and its amount is missing: \<^verbatim>\<open>count\<close> counts the amounts that are present, so
  the count of the group is 0.
\<close>

theorem aggregate_groups_counterexample:
  "aggregate example_pandas
     [\<lparr>name = ''Transaction Category'', dtype = Plain, cells = [Text ''A'']\<rparr>,
      \<lparr>name = ''Amount Paid'', dtype = Plain, cells = [NA]\<rparr>]
   = Inr [\<lparr>Category = Text ''A'', n_transactions = 0, Total_Amount_Paid = Num 0\<rparr>]
   \<and> length (group_cells [Text ''A''] [NA :: int cell] (Text ''A'' :: int cell)) = 1"
  by code_simp

text \<open>
  C2, with the count of the present amounts. For every frame on which the aggregation
  returns a table: the categories of the table are the categories of the frame that are
  not missing, each once; the count of a group is the number of the rows of its
  category whose amount is not missing; and its total is what \<^verbatim>\<open>round(2)\<close> gives on
  the sum of these amounts, so it is rounded once, after the summation. The sum and
  the rounding are those of pandas on the numbers of the column; of \<^verbatim>\<open>sort_values\<close> the
  statement uses that it returns the rows of its argument.
\<close>

theorem aggregate_groups:
  assumes "sort_permutes L" "aggregate L df = Inr t"
  shows "mset (map Category t) = mset (categories df)
       \<and> (\<forall>g\<in>set t.
            n_transactions g = length (present_amounts df (Category g))
            \<and> rounded_sum L (present_amounts df (Category g)) = Inr (Total_Amount_Paid g))"
proof (intro conjI ballI)
  show "mset (map Category t) = mset (categories df)" using assms by (rule aggregate_rows(1))
next
  fix g
  assume "g \<in> set t"
  from aggregate_rows(2) [OF assms this]
  show "n_transactions g = length (present_amounts df (Category g))"
    and "rounded_sum L (present_amounts df (Category g)) = Inr (Total_Amount_Paid g)"
    by (auto simp: rounded_sum_def split: sum.splits)
qed

theorem aggregate_groups_witness:
  "sort_permutes example_pandas
   \<and> aggregate example_pandas example_uncategorised
     = Inr [\<lparr>Category = Text ''B'', n_transactions = 1, Total_Amount_Paid = Num 5\<rparr>,
            \<lparr>Category = Text ''A'', n_transactions = 2, Total_Amount_Paid = Num 2\<rparr>]
   \<and> categories example_uncategorised = [Text ''A'', Text ''B'']
   \<and> present_amounts example_uncategorised (Text ''A'') = [Num 1, Num 1]
   \<and> present_amounts example_uncategorised (Text ''B'') = [Num 5]
   \<and> rounded_sum example_pandas [Num 1, Num 1] = Inr (Num 2)
   \<and> rounded_sum example_pandas [Num 5] = Inr (Num 5)"
proof -
  have a: "aggregate example_pandas example_uncategorised
     = Inr [\<lparr>Category = Text ''B'', n_transactions = 1, Total_Amount_Paid = Num 5\<rparr>,
            \<lparr>Category = Text ''A'', n_transactions = 2, Total_Amount_Paid = Num 2\<rparr>]"
    by code_simp
  have c: "categories example_uncategorised = [Text ''A'', Text ''B'']"
    "present_amounts example_uncategorised (Text ''A'') = [Num 1, Num 1]"
    "present_amounts example_uncategorised (Text ''B'') = [Num 5]"
    by code_simp+
  from aggregate_groups [OF sort_permutes_example a]
  show ?thesis using sort_permutes_example a c by simp
qed

section \<open>What the pipeline returns\<close>

lemma NA_not_in_table:
  assumes "sort_permutes L" "aggregate L sel = Inr t"
  shows "NA \<notin> set (map Category t)"
proof -
  have "set (map Category t) = set (categories sel)"
    using aggregate_rows(1) [OF assms] by (metis set_mset_mset)
  then show ?thesis by (simp add: categories_def set_group_keys split: option.splits)
qed

text \<open>
  C7. For every frame, token and date column, in a result that the pipeline returns the
  frame is the one that was read, the grand total is the sum, as pandas takes it, of
  the totals of the rows of the table, which are the rounded ones, and the grand count
  is the sum of their counts; a result without table has both totals zero. On a frame
  without rows the result has the empty marker \<open>None\<close> for the table and both totals
  zero, and the pipeline returns this result whenever the resolver returns a window
  and the date column, which has no cells, converts to a datetime column without time
  zone.
\<close>

theorem load_and_process_data_totals:
  "(load_and_process_data L now (Some df) tok dc = Inr r \<longrightarrow>
      original_df r = Some df \<and> reconciled L r
      \<and> (frame_empty df \<and> keeps_length L \<longrightarrow> r = empty_result df (start_date r) (end_date r)))
   \<and> (frame_empty df \<and> keeps_datetimes L \<and> parses_empty L df dc
        \<and> get_date_range now tok None = Inr (sd, ed) \<longrightarrow>
      load_and_process_data L now (Some df) tok dc = Inr (empty_result df sd ed))"
proof (intro conjI impI)
  assume l: "load_and_process_data L now (Some df) tok dc = Inr r"
  then obtain sel where s: "summarize L df (start_date r) (end_date r) sel = Inr r"
    by (auto elim: load_and_process_data_Inr)
  show "original_df r = Some df" using s by (rule summarize_Inr(1))
  show "reconciled L r" using s by (rule summarize_Inr(4))
  assume "frame_empty df \<and> keeps_length L"
  then show "r = empty_result df (start_date r) (end_date r)"
    using load_and_process_data_empty [OF _ _ l] by simp
next
  assume "frame_empty df \<and> keeps_datetimes L \<and> parses_empty L df dc
        \<and> get_date_range now tok None = Inr (sd, ed)"
  then show "load_and_process_data L now (Some df) tok dc = Inr (empty_result df sd ed)"
    using load_and_process_data_empty_returns [of L df dc now tok sd ed] by simp
qed

theorem load_and_process_data_totals_witness:
  "load_and_process_data example_pandas example_now (Some example_df) ''Last 7 Days'' ''Created On''
     = Inr \<lparr>original_df = Some example_df,
          transaction_summary = Some
            [\<lparr>Category = Text ''A'', n_transactions = 1, Total_Amount_Paid = Num 10\<rparr>,
             \<lparr>Category = Text ''C'', n_transactions = 1, Total_Amount_Paid = Num 7\<rparr>],
          grand_total_amount = Some (Num 17), grand_total_count = Some 2,
          start_date = Some \<lparr>year = 2024, month = 3, day = 9, hour = 0, minute = 0, second = 0, microsecond = 0\<rparr>,
          end_date = Some \<lparr>year = 2024, month = 3, day = 15, hour = 0, minute = 0, second = 0, microsecond = 0\<rparr>\<rparr>
   \<and> series_sum example_pandas [Num 10, Num 7] = Inr (Num 17)
   \<and> frame_empty example_empty \<and> keeps_length example_pandas \<and> keeps_datetimes example_pandas
   \<and> parses_empty example_pandas example_empty ''Created On''
   \<and> get_date_range example_now ''Last 7 Days'' None
     = Inr (Some \<lparr>year = 2024, month = 3, day = 9, hour = 0, minute = 0, second = 0, microsecond = 0\<rparr>,
            Some \<lparr>year = 2024, month = 3, day = 15, hour = 0, minute = 0, second = 0, microsecond = 0\<rparr>)
   \<and> load_and_process_data example_pandas example_now (Some example_empty) ''Last 7 Days'' ''Created On''
     = Inr \<lparr>original_df = Some example_empty, transaction_summary = None,
            grand_total_amount = Some (Num 0), grand_total_count = Some 0,
            start_date = Some \<lparr>year = 2024, month = 3, day = 9, hour = 0, minute = 0, second = 0, microsecond = 0\<rparr>,
            end_date = Some \<lparr>year = 2024, month = 3, day = 15, hour = 0, minute = 0, second = 0, microsecond = 0\<rparr>\<rparr>"
proof -
  let ?sd = "Some \<lparr>year = 2024, month = 3, day = 9, hour = 0, minute = 0, second = 0, microsecond = 0\<rparr>"
  let ?ed = "Some \<lparr>year = 2024, month = 3, day = 15, hour = 0, minute = 0, second = 0, microsecond = 0\<rparr>"
  let ?r = "\<lparr>original_df = Some example_df,
          transaction_summary = Some
            [\<lparr>Category = Text ''A'', n_transactions = 1, Total_Amount_Paid = Num 10\<rparr>,
             \<lparr>Category = Text ''C'', n_transactions = 1, Total_Amount_Paid = Num 7\<rparr>],
          grand_total_amount = Some (Num 17), grand_total_count = Some 2,
          start_date = ?sd, end_date = ?ed\<rparr>"
  have l: "load_and_process_data example_pandas example_now (Some example_df) ''Last 7 Days'' ''Created On''
     = Inr ?r"
    by code_simp
  have e: "frame_empty example_empty" "parses_empty example_pandas example_empty ''Created On''"
    "get_date_range example_now ''Last 7 Days'' None = Inr (?sd, ?ed)"
    by code_simp+
  from load_and_process_data_totals [of example_pandas example_now example_df
      "''Last 7 Days''" "''Created On''" ?r ?sd ?ed]
    load_and_process_data_totals [of example_pandas example_now example_empty
      "''Last 7 Days''" "''Created On''" "empty_result example_empty ?sd ?ed" ?sd ?ed]
  show ?thesis
    using l e keeps_length_example keeps_datetimes_example
    by (simp add: reconciled_def empty_result_def)
qed

text \<open>
  C9. When the date column is in the frame, the pipeline under the token
  \<^verbatim>\<open>All Time\<close> aggregates the frame with the converted date column and without the
  rows whose converted cell is missing, which are the rows whose cell was missing or
  did not parse: the result is the empty one if no row is left, and otherwise has the
  table and the totals of these rows, or the error of pandas on them. The window is
  unbounded, and the filter on it returns the frame as it is. The frame of the result
  is the one that was read, with all its rows.
\<close>

theorem all_time_drops_unparsable:
  assumes "valid_datetime now" "get_col df dc = Some col"
    and "to_datetime L (dtype col, cells col) = (d, ps)"
  shows "(let kept = select_rows (map notna ps) (set_col df (col\<lparr>dtype := d, cells := ps\<rparr>))
          in load_and_process_data L now (Some df) ''All Time'' dc =
               (if frame_empty kept then Inr (empty_result df None None)
                else
                  (case aggregate L kept of
                     Inl err \<Rightarrow> Inl err
                   | Inr t \<Rightarrow>
                       (case series_sum L (map Total_Amount_Paid t) of
                          Inl err \<Rightarrow> Inl err
                        | Inr amount \<Rightarrow>
                            Inr \<lparr>original_df = Some df, transaction_summary = Some t,
                                 grand_total_amount = Some amount,
                                 grand_total_count = Some (sum_list (map n_transactions t)),
                                 start_date = None, end_date = None\<rparr>))))
       \<and> filter_data_by_date L df None None dc = Inr df"
proof -
  let ?pcol = "col\<lparr>dtype := d, cells := ps\<rparr>"
  have tc: "to_datetime_col L col = ?pcol" by (simp add: to_datetime_col_def assms(3))
  have nm: "name ?pcol = dc" using get_col_name [OF assms(2)] by simp
  have g1: "get_col (set_col df ?pcol) dc = Some ?pcol"
    using get_col_set_col [of df ?pcol] nm by simp
  have d1: "dropna (set_col df (to_datetime_col L col)) dc
            = select_rows (map notna ps) (set_col df ?pcol)"
    by (simp add: tc dropna_def g1)
  show ?thesis
    unfolding load_and_process_data_all_time [OF assms(1)] assms(2) option.case d1 Let_def
    by (simp add: summarize_def empty_result_def filter_data_by_date_def)
qed

theorem all_time_drops_unparsable_witness:
  "valid_datetime example_now
   \<and> get_col example_df ''Created On''
     = Some \<lparr>name = ''Created On'', dtype = Plain,
             cells = [Text ''2024-03-10'', Text ''not-a-date'', NA, Text ''2024-03-15'',
                      Text ''2024-03-16'']\<rparr>
   \<and> to_datetime example_pandas
        (Plain, [Text ''2024-03-10'', Text ''not-a-date'', NA, Text ''2024-03-15'', Text ''2024-03-16''])
     = (Datetime64, [Stamp 1710028800000000000, NA, NA, Stamp 1710460800000000000,
                     Stamp 1710547200000000000])
   \<and> load_and_process_data example_pandas example_now (Some example_df) ''All Time'' ''Created On''
     = Inr \<lparr>original_df = Some example_df,
            transaction_summary = Some
              [\<lparr>Category = Text ''A'', n_transactions = 1, Total_Amount_Paid = Num 10\<rparr>,
               \<lparr>Category = Text ''C'', n_transactions = 1, Total_Amount_Paid = Num 7\<rparr>,
               \<lparr>Category = Text ''B'', n_transactions = 1, Total_Amount_Paid = Num 2\<rparr>],
            grand_total_amount = Some (Num 19), grand_total_count = Some 3,
            start_date = None, end_date = None\<rparr>"
proof -
  let ?col = "\<lparr>name = ''Created On'', dtype = Plain,
             cells = [Text ''2024-03-10'', Text ''not-a-date'', NA, Text ''2024-03-15'',
                      Text ''2024-03-16'']\<rparr> :: int column"
  let ?ps = "[Stamp 1710028800000000000, NA, NA, Stamp 1710460800000000000,
                     Stamp 1710547200000000000] :: int cell list"
  have v: "valid_datetime example_now" by code_simp
  have c: "get_col example_df ''Created On'' = Some ?col" by code_simp
  have p: "to_datetime example_pandas (dtype ?col, cells ?col) = (Datetime64, ?ps)" by code_simp
  have k: "select_rows (map notna ?ps) (set_col example_df (?col\<lparr>dtype := Datetime64, cells := ?ps\<rparr>))
      = [\<lparr>name = ''Transaction Category'', dtype = Plain, cells = [Text ''A'', Text ''C'', Text ''B'']\<rparr>,
         \<lparr>name = ''Amount Paid'', dtype = Plain, cells = [Num 10, Num 7, Num 2]\<rparr>,
         \<lparr>name = ''Created On'', dtype = Datetime64,
          cells = [Stamp 1710028800000000000, Stamp 1710460800000000000, Stamp 1710547200000000000]\<rparr>]"
    by code_simp
  have a: "aggregate example_pandas
        [\<lparr>name = ''Transaction Category'', dtype = Plain, cells = [Text ''A'', Text ''C'', Text ''B'']\<rparr>,
         \<lparr>name = ''Amount Paid'', dtype = Plain, cells = [Num 10, Num 7, Num 2]\<rparr>,
         \<lparr>name = ''Created On'', dtype = Datetime64,
          cells = [Stamp 1710028800000000000, Stamp 1710460800000000000, Stamp 1710547200000000000]\<rparr>]
      = Inr [\<lparr>Category = Text ''A'', n_transactions = 1, Total_Amount_Paid = Num 10\<rparr>,
               \<lparr>Category = Text ''C'', n_transactions = 1, Total_Amount_Paid = Num 7\<rparr>,
               \<lparr>Category = Text ''B'', n_transactions = 1, Total_Amount_Paid = Num 2\<rparr>]"
    by code_simp
  have s: "series_sum example_pandas [Num 10, Num 7, Num 2] = Inr (Num 19)" by code_simp
  have f: "\<not> frame_empty
        [\<lparr>name = ''Transaction Category'', dtype = Plain, cells = [Text ''A'', Text ''C'', Text ''B'']\<rparr>,
         \<lparr>name = ''Amount Paid'', dtype = Plain, cells = [Num 10, Num 7, Num 2]\<rparr>,
         \<lparr>name = ''Created On'', dtype = Datetime64,
          cells = [Stamp 1710028800000000000, Stamp 1710460800000000000, Stamp 1710547200000000000 :: int cell]\<rparr>]"
    by code_simp
  from all_time_drops_unparsable [OF v c p]
  have "load_and_process_data example_pandas example_now (Some example_df) ''All Time'' ''Created On''
     = Inr \<lparr>original_df = Some example_df,
            transaction_summary = Some
              [\<lparr>Category = Text ''A'', n_transactions = 1, Total_Amount_Paid = Num 10\<rparr>,
               \<lparr>Category = Text ''C'', n_transactions = 1, Total_Amount_Paid = Num 7\<rparr>,
               \<lparr>Category = Text ''B'', n_transactions = 1, Total_Amount_Paid = Num 2\<rparr>],
            grand_total_amount = Some (Num 19), grand_total_count = Some 3,
            start_date = None, end_date = None\<rparr>"
    unfolding Let_def k using f by (simp add: a s)
  then show ?thesis using v c p by simp
qed

text \<open>
  C10. Rows whose category is missing have no group: the aggregation of a frame is the
  aggregation of the frame without these rows, and no row of the table has a missing
  category. For every frame and every token, the table of a result of the pipeline is
  the aggregation of the rows that the date column and the window keep, without those
  of missing category, and its grand total and grand count are the sums over the rows
  of this table.
\<close>

theorem missing_category_excluded:
  "aggregate L (drop_missing_category sel) = aggregate L sel
   \<and> (sort_permutes L \<and> aggregate L sel = Inr t \<longrightarrow> NA \<notin> set (map Category t))
   \<and> (load_and_process_data L now (Some df) tok dc = Inr r \<longrightarrow>
        (case kept_rows L df dc (start_date r) (end_date r) of
           Inl err \<Rightarrow> False
         | Inr kept \<Rightarrow>
             (case transaction_summary r of
                None \<Rightarrow> frame_empty kept
              | Some t' \<Rightarrow> aggregate L (drop_missing_category kept) = Inr t')
             \<and> reconciled L r))"
proof (intro conjI impI)
  show "aggregate L (drop_missing_category sel) = aggregate L sel" by (rule aggregate_drop)
next
  assume "sort_permutes L \<and> aggregate L sel = Inr t"
  then show "NA \<notin> set (map Category t)" using NA_not_in_table [of L sel t] by simp
next
  assume "load_and_process_data L now (Some df) tok dc = Inr r"
  then obtain sd ed kept where k: "kept_rows L df dc sd ed = Inr kept"
    and s: "summarize L df sd ed kept = Inr r"
    unfolding load_and_process_data_kept by (auto split: sum.splits prod.splits)
  have se: "start_date r = sd" "end_date r = ed" using s by (rule summarize_Inr(2,3))+
  from summarize_Inr(5) [OF s]
  have "case transaction_summary r of
                None \<Rightarrow> frame_empty kept
              | Some t' \<Rightarrow> aggregate L (drop_missing_category kept) = Inr t'"
    by (simp add: aggregate_drop split: option.splits)
  with summarize_Inr(4) [OF s]
  show "case kept_rows L df dc (start_date r) (end_date r) of
           Inl err \<Rightarrow> False
         | Inr kept \<Rightarrow>
             (case transaction_summary r of
                None \<Rightarrow> frame_empty kept
              | Some t' \<Rightarrow> aggregate L (drop_missing_category kept) = Inr t')
             \<and> reconciled L r"
    by (simp add: se k)
qed

theorem missing_category_excluded_witness:
  "kept_rows example_pandas example_uncategorised ''Created On''
       (Some \<lparr>year = 2024, month = 3, day = 9, hour = 0, minute = 0, second = 0, microsecond = 0\<rparr>)
       (Some \<lparr>year = 2024, month = 3, day = 15, hour = 0, minute = 0, second = 0, microsecond = 0\<rparr>)
     = Inr [\<lparr>name = ''Transaction Category'', dtype = Plain,
             cells = [Text ''A'', Text ''A'', Text ''A'', Text ''B'', NA]\<rparr>,
            \<lparr>name = ''Amount Paid'', dtype = Plain, cells = [Num 1, Num 1, NA, Num 5, Num 9]\<rparr>,
            \<lparr>name = ''Created On'', dtype = Datetime64,
             cells = [Stamp 1710028800000000000, Stamp 1710028800000000000,
                      Stamp 1710460800000000000, Stamp 1710460800000000000,
                      Stamp 1710028800000000000]\<rparr>]
   \<and> drop_missing_category example_uncategorised
     = [\<lparr>name = ''Transaction Category'', dtype = Plain,
         cells = [Text ''A'', Text ''A'', Text ''A'', Text ''B'']\<rparr>,
        \<lparr>name = ''Amount Paid'', dtype = Plain, cells = [Num 1, Num 1, NA, Num 5]\<rparr>,
        \<lparr>name = ''Created On'', dtype = Plain,
         cells = [Text ''2024-03-10'', Text ''2024-03-10'', Text ''2024-03-15'',
                  Text ''2024-03-15'']\<rparr>]
   \<and> sort_permutes example_pandas
   \<and> aggregate example_pandas example_uncategorised
     = Inr [\<lparr>Category = Text ''B'', n_transactions = 1, Total_Amount_Paid = Num 5\<rparr>,
            \<lparr>Category = Text ''A'', n_transactions = 2, Total_Amount_Paid = Num 2\<rparr>]
   \<and> aggregate example_pandas (drop_missing_category example_uncategorised)
     = Inr [\<lparr>Category = Text ''B'', n_transactions = 1, Total_Amount_Paid = Num 5\<rparr>,
            \<lparr>Category = Text ''A'', n_transactions = 2, Total_Amount_Paid = Num 2\<rparr>]
   \<and> load_and_process_data example_pandas example_now (Some example_uncategorised)
        ''Last 7 Days'' ''Created On''
     = Inr \<lparr>original_df = Some example_uncategorised,
            transaction_summary = Some
              [\<lparr>Category = Text ''B'', n_transactions = 1, Total_Amount_Paid = Num 5\<rparr>,
               \<lparr>Category = Text ''A'', n_transactions = 2, Total_Amount_Paid = Num 2\<rparr>],
            grand_total_amount = Some (Num 7), grand_total_count = Some 3,
            start_date = Some \<lparr>year = 2024, month = 3, day = 9, hour = 0, minute = 0, second = 0, microsecond = 0\<rparr>,
            end_date = Some \<lparr>year = 2024, month = 3, day = 15, hour = 0, minute = 0, second = 0, microsecond = 0\<rparr>\<rparr>"
proof -
  let ?t = "[\<lparr>Category = Text ''B'', n_transactions = 1, Total_Amount_Paid = Num 5\<rparr>,
            \<lparr>Category = Text ''A'', n_transactions = 2, Total_Amount_Paid = Num (2 :: int)\<rparr>]"
  let ?r = "\<lparr>original_df = Some example_uncategorised,
            transaction_summary = Some ?t,
            grand_total_amount = Some (Num 7), grand_total_count = Some 3,
            start_date = Some \<lparr>year = 2024, month = 3, day = 9, hour = 0, minute = 0, second = 0, microsecond = 0\<rparr>,
            end_date = Some \<lparr>year = 2024, month = 3, day = 15, hour = 0, minute = 0, second = 0, microsecond = 0\<rparr>\<rparr>"
  have d: "drop_missing_category example_uncategorised
     = [\<lparr>name = ''Transaction Category'', dtype = Plain,
         cells = [Text ''A'', Text ''A'', Text ''A'', Text ''B'']\<rparr>,
        \<lparr>name = ''Amount Paid'', dtype = Plain, cells = [Num 1, Num 1, NA, Num 5]\<rparr>,
        \<lparr>name = ''Created On'', dtype = Plain,
         cells = [Text ''2024-03-10'', Text ''2024-03-10'', Text ''2024-03-15'',
                  Text ''2024-03-15'']\<rparr>]"
    by code_simp
  have a: "aggregate example_pandas example_uncategorised = Inr ?t" by code_simp
  have l: "load_and_process_data example_pandas example_now (Some example_uncategorised)
        ''Last 7 Days'' ''Created On'' = Inr ?r"
    by code_simp
  have k: "kept_rows example_pandas example_uncategorised ''Created On''
       (Some \<lparr>year = 2024, month = 3, day = 9, hour = 0, minute = 0, second = 0, microsecond = 0\<rparr>)
       (Some \<lparr>year = 2024, month = 3, day = 15, hour = 0, minute = 0, second = 0, microsecond = 0\<rparr>)
     = Inr [\<lparr>name = ''Transaction Category'', dtype = Plain,
             cells = [Text ''A'', Text ''A'', Text ''A'', Text ''B'', NA]\<rparr>,
            \<lparr>name = ''Amount Paid'', dtype = Plain, cells = [Num 1, Num 1, NA, Num 5, Num 9]\<rparr>,
            \<lparr>name = ''Created On'', dtype = Datetime64,
             cells = [Stamp 1710028800000000000, Stamp 1710028800000000000,
                      Stamp 1710460800000000000, Stamp 1710460800000000000,
                      Stamp 1710028800000000000]\<rparr>]"
    by code_simp
  from missing_category_excluded [of example_pandas example_uncategorised ?t example_now
      example_uncategorised "''Last 7 Days''" "''Created On''" ?r]
  show ?thesis using sort_permutes_example a l d k by simp
qed

end
